theory Spec2Isabelle
  imports Main "HOL-Library.Word"
begin

section \<open>Errors and values\<close>

text \<open>
  The exceptions the modelled code raises, by class. Only \<open>SyntaxError\<close> keeps its
  message (the quote operators are specified by it); the messages of the other classes
  are built with \<open>repr\<close> and \<open>unparse\<close>, which are not part of these sources.
  \<open>ExpansionError e\<close> is the \<open>MacroExpansionError\<close> that the expander raises from \<open>e\<close>.
  \<open>Unmodelled\<close> is not a Python exception: it marks a run that goes on in objects this
  theory does not describe (a callee of \<open>unastify\<close> that is not a node class of \<open>ast\<close>,
  a macro that is not one of \<open>quotes.py\<close>).
\<close>

datatype error =
    TypeError
  | ValueError
  | NotImplementedError
  | AttributeError
  | KeyError
  | IndexError
  | AssertionError
  | SyntaxError string
  | ExpansionError error
  | Unmodelled

text \<open>
  The marker classes of \<open>markers.py\<close> and \<open>quotes.py\<close>, and the class of a node:
  \<open>Ast c\<close> is the node class that the standard module \<open>ast\<close> exports as \<open>c\<close>.
\<close>

datatype marker = ASTMarker | QuasiquoteMarker | ASTLiteral | CaptureLater

datatype pyclass = Ast string | Marker marker

text \<open>
  Python values. A float is its IEEE 754 double, a set and a dict list their members in
  iteration order, and a node is its class with the pairs that \<open>ast.iter_fields\<close> yields
  (source locations are attributes, not fields, and are not part of a node here).
  \<open>VOther a\<close> is an object of any other type, known by its address only.
\<close>

datatype pyval =
    VNone
  | VBool bool
  | VInt int
  | VFloat "64 word"
  | VStr string
  | VBytes "8 word list"
  | VList "pyval list"
  | VTuple "pyval list"
  | VSet "pyval list"
  | VDict "(pyval \<times> pyval) list"
  | VNode pyclass "(string \<times> pyval) list"
  | VOther nat

text \<open>\<open>isinstance(value, int)\<close>: an int, or a bool (a subclass of int: True is 1).\<close>

fun as_int :: "pyval \<Rightarrow> int option" where
  "as_int (VInt i) = Some i"
| "as_int (VBool b) = Some (if b then 1 else 0)"
| "as_int _ = None"

section \<open>utilities.py: NestingLevelTracker\<close>

record NestingLevelTracker =
  stack :: "int list"

text \<open>A computation over a state that holds a tracker: it may not return (\<open>None\<close>),
  raise (\<open>Inl\<close>) or return a value (\<open>Inr\<close>), and leaves a state behind.\<close>

type_synonym ('r, 's) run = "'s \<Rightarrow> ((error + 'r) \<times> 's) option"

definition init :: "int \<Rightarrow> NestingLevelTracker" where
  "init start = \<lparr>stack = [start]\<rparr>"

text \<open>\<open>_get_value\<close>: \<open>self.stack[-1]\<close>, an IndexError on an empty stack.\<close>

definition get_value :: "'a NestingLevelTracker_scheme \<Rightarrow> error + int" where
  "get_value self = (if stack self = [] then Inl IndexError else Inr (last (stack self)))"

text \<open>
  \<open>with self.set_to(value): body\<close>. The two checks run when \<open>set_to\<close> is called, before
  the context manager is entered; entering appends, and the \<open>finally\<close> clause pops and
  asserts that the stack is not empty, whether the body returned or raised.
\<close>

definition with_set_to ::
  "pyval \<Rightarrow> ('r, 'a NestingLevelTracker_scheme) run \<Rightarrow> ('r, 'a NestingLevelTracker_scheme) run" where
  "with_set_to value body self =
     (case as_int value of
        None \<Rightarrow> Some (Inl TypeError, self)
      | Some v \<Rightarrow>
          if v < 0 then Some (Inl ValueError, self)
          else (case body (self\<lparr>stack := stack self @ [v]\<rparr>) of
                  None \<Rightarrow> None
                | Some (r, self') \<Rightarrow>
                    if stack self' = [] then Some (Inl IndexError, self')
                    else let self'' = self'\<lparr>stack := butlast (stack self')\<rparr>
                         in if stack self'' = [] then Some (Inl AssertionError, self'')
                            else Some (r, self'')))"

text \<open>\<open>with self.changed_by(delta): body\<close>, that is \<open>self.set_to(self.value + delta)\<close>;
  \<open>delta\<close> is an int at every call of the sources (\<open>+1\<close>, \<open>-1\<close>).\<close>

definition with_changed_by ::
  "int \<Rightarrow> ('r, 'a NestingLevelTracker_scheme) run \<Rightarrow> ('r, 'a NestingLevelTracker_scheme) run" where
  "with_changed_by delta body self =
     (case get_value self of
        Inl e \<Rightarrow> Some (Inl e, self)
      | Inr v \<Rightarrow> with_set_to (VInt (v + delta)) body self)"

subsection \<open>Bodies that use a tracker\<close>

text \<open>
  The code a \<open>with\<close> block of a tracker can hold, as far as the tracker sees it: it
  returns, raises, enters further blocks of the same tracker, runs one piece after
  another, or catches what a piece raises. The state keeps, beside the tracker, the
  list of every stack the tracker went through (\<open>seen\<close>), written when a block is
  entered and when it is left.
\<close>

datatype body =
    Pass
  | Raise error
  | SetTo pyval body
  | ChangedBy int body
  | Seq body body
  | TryExcept body body

record traced = NestingLevelTracker +
  seen :: "int list list"

definition log_stack :: "traced \<Rightarrow> traced" where
  "log_stack t = t\<lparr>seen := seen t @ [stack t]\<rparr>"

definition logged :: "((error + unit) \<times> traced) option \<Rightarrow> ((error + unit) \<times> traced) option" where
  "logged res = (case res of None \<Rightarrow> None | Some (r, t) \<Rightarrow> Some (r, log_stack t))"

fun exec :: "body \<Rightarrow> (unit, traced) run" where
  "exec Pass t = Some (Inr (), t)"
| "exec (Raise e) t = Some (Inl e, t)"
| "exec (SetTo v b) t = logged (with_set_to v (\<lambda>t'. exec b (log_stack t')) t)"
| "exec (ChangedBy d b) t = logged (with_changed_by d (\<lambda>t'. exec b (log_stack t')) t)"
| "exec (Seq a b) t =
     (case exec a t of
        None \<Rightarrow> None
      | Some (Inl e, t') \<Rightarrow> Some (Inl e, t')
      | Some (Inr _, t') \<Rightarrow> exec b t')"
| "exec (TryExcept a b) t =
     (case exec a t of
        None \<Rightarrow> None
      | Some (Inl e, t') \<Rightarrow> exec b t'
      | Some (Inr u, t') \<Rightarrow> Some (Inr u, t'))"

text \<open>A level is a non-negative integer; a stack is in order when it is not empty and
  holds levels only.\<close>

definition levels_ok :: "int list \<Rightarrow> bool" where
  "levels_ok st = (st \<noteq> [] \<and> list_all (\<lambda>v. 0 \<le> v) st)"

section \<open>utilities.py: gensym\<close>

text \<open>
  \<open>_previous_gensyms\<close>, and the values that the coming calls of \<open>uuid.uuid4()\<close> will
  return (as \<open>str\<close> prints them). \<open>uuid4\<close> is random: the list stands for whatever it
  yields, and a run that uses it up has not returned within the modelled horizon.
\<close>

record gensyms =
  previous_gensyms :: "string set"
  uuid4s :: "string list"

text \<open>\<open>generate()\<close> and the loop \<open>while sym in _previous_gensyms: sym = generate()\<close>.\<close>

fun generate_unused :: "string \<Rightarrow> string set \<Rightarrow> string list \<Rightarrow> (string \<times> string list) option" where
  "generate_unused basename prev [] = None"
| "generate_unused basename prev (uuid # rest) =
     (let unique = filter (\<lambda>c. c \<noteq> CHR ''-'') uuid;
          symb = basename @ ''_'' @ unique
      in if symb \<in> prev then generate_unused basename prev rest else Some (symb, rest))"

definition gensym :: "string option \<Rightarrow> gensyms \<Rightarrow> (string \<times> gensyms) option" where
  "gensym basename g =
     (let basename = (case basename of None \<Rightarrow> ''gensym''
                      | Some b \<Rightarrow> if b = [] then ''gensym'' else b)
      in case generate_unused basename (previous_gensyms g) (uuid4s g) of
           None \<Rightarrow> None
         | Some (symb, rest) \<Rightarrow>
             Some (symb, \<lparr>previous_gensyms = insert symb (previous_gensyms g), uuid4s = rest\<rparr>))"

section \<open>quotes.py: the capture registries\<close>

text \<open>
  A run-time object: its identity (what \<open>is\<close> compares) and what it holds. A registry
  is a dict from keys to objects, in insertion order.
\<close>

record 'c pyobj =
  ident :: nat
  content :: 'c

type_synonym 'c registry = "(string \<times> 'c pyobj) list"

text \<open>\<open>mapping[key] = value\<close>: a key that is there keeps its place.\<close>

fun setitem :: "(string \<times> 'v) list \<Rightarrow> string \<Rightarrow> 'v \<Rightarrow> (string \<times> 'v) list" where
  "setitem [] key value = [(key, value)]"
| "setitem ((k, v) # rest) key value =
     (if k = key then (k, value) # rest else (k, v) # setitem rest key value)"

text \<open>The loop of \<open>_capture_into\<close>: the first key whose value \<open>is\<close> the given object.\<close>

fun find_identical :: "'c registry \<Rightarrow> 'c pyobj \<Rightarrow> string option" where
  "find_identical [] value = None"
| "find_identical ((k, v) # rest) value =
     (if ident v = ident value then Some k else find_identical rest value)"

definition capture_into ::
  "'c registry \<Rightarrow> 'c pyobj \<Rightarrow> string \<Rightarrow> gensyms \<Rightarrow> (string \<times> 'c registry \<times> gensyms) option" where
  "capture_into mapping value basename g =
     (case find_identical mapping value of
        Some key \<Rightarrow> Some (key, mapping, g)
      | None \<Rightarrow>
          (case gensym (Some basename) g of
             None \<Rightarrow> None
           | Some (key, g') \<Rightarrow> Some (key, setitem mapping key value, g')))"

subsection \<open>Nodes that the module builds\<close>

definition Load :: pyval where
  "Load = VNode (Ast ''Load'') []"

definition Constant :: "pyval \<Rightarrow> pyval" where
  "Constant v = VNode (Ast ''Constant'') [(''value'', v)]"

definition keyword :: "pyval \<Rightarrow> pyval \<Rightarrow> pyval" where
  "keyword a v = VNode (Ast ''keyword'') [(''arg'', a), (''value'', v)]"

definition Call :: "pyval \<Rightarrow> pyval list \<Rightarrow> pyval list \<Rightarrow> pyval" where
  "Call func args keywords =
     VNode (Ast ''Call'') [(''func'', func), (''args'', VList args), (''keywords'', VList keywords)]"

definition Attribute :: "pyval \<Rightarrow> string \<Rightarrow> pyval" where
  "Attribute v a = VNode (Ast ''Attribute'') [(''value'', v), (''attr'', VStr a), (''ctx'', Load)]"

text \<open>\<open>_mcpy_quotes_attr(attr)\<close>: the tree of \<open>mcpy.quotes.attr\<close>.\<close>

definition mcpy_quotes_attr :: "string \<Rightarrow> pyval" where
  "mcpy_quotes_attr attr =
     Attribute (Attribute (VNode (Ast ''Name'') [(''id'', VStr ''mcpy''), (''ctx'', Load)]) ''quotes'') attr"

text \<open>\<open>capture(value, basename)\<close> on \<open>_hygienic_registry\<close>, and \<open>lookup(key)\<close>.\<close>

definition capture ::
  "pyval pyobj \<Rightarrow> string \<Rightarrow> pyval registry \<times> gensyms \<Rightarrow> (pyval \<times> pyval registry \<times> gensyms) option" where
  "capture value basename st =
     (case capture_into (fst st) value basename (snd st) of
        None \<Rightarrow> None
      | Some (key, reg, g) \<Rightarrow>
          Some (Call (mcpy_quotes_attr ''lookup'') [Constant (VStr key)] [], reg, g))"

definition lookup :: "'c registry \<Rightarrow> string \<Rightarrow> error + 'c pyobj" where
  "lookup reg key = (case map_of reg key of None \<Rightarrow> Inl KeyError | Some v \<Rightarrow> Inr v)"

section \<open>visitors.py: the data of BaseMacroExpander\<close>

text \<open>
  \<open>__init__(bindings, filepath)\<close>: the binding table from macro names to macros (a dict,
  in insertion order), the file path, and the flag \<open>_recursive\<close>.
\<close>

record 'm BaseMacroExpander =
  bindings :: "(string \<times> 'm) list"
  filepath :: string
  recursive :: bool

section \<open>quotes.py: astify\<close>

text \<open>
  What a macro function object is: one of the six quasiquote operators of this module,
  or any other macro.
\<close>

datatype macro = Macro_q | Macro_u | Macro_n | Macro_a | Macro_s | Macro_h | Macro_other

text \<open>
  The module state that the quote operators and \<open>astify\<close> work on: the tracker
  \<open>_quotelevel\<close>, the registry \<open>_hygienic_bindings\<close> of captured macros, and the state
  of \<open>gensym\<close>.
\<close>

record quotes_state = NestingLevelTracker +
  hygienic_bindings :: "macro registry"
  gensym_state :: gensyms

text \<open>
  The expander that a macro receives ("a \<open>BaseMacroExpander\<close> instance", as the
  docstring of \<open>astify\<close> has it), as far as this module uses it: its bindings and
  file name, and its method \<open>visit_recursively\<close>. The method lives in a module that is
  not part of these sources; it is a field here. A walk returns a tree and rewrites the
  children of its argument in place: the result is the pair of the returned tree and
  of the argument as the walk leaves it.
\<close>

record expander = "macro pyobj BaseMacroExpander" +
  filename :: string
  visit_recursively :: "pyval \<Rightarrow> (pyval \<times> pyval, quotes_state) run"

text \<open>
  Modelled from the spec: \<open>expander.ismacroname\<close> (its class is not in these sources),
  "a bare identifier naming a macro known to that context"; \<open>visitors.py\<close> has the same
  test as \<open>_ismacro\<close>.
\<close>

definition ismacroname :: "expander \<Rightarrow> pyval \<Rightarrow> bool" where
  "ismacroname ex name = (case name of VStr s \<Rightarrow> map_of (bindings ex) s \<noteq> None | _ \<Rightarrow> False)"

text \<open>Running a step after another: the rest runs on what the first returned.\<close>

definition and_then ::
  "((error + 'a) \<times> 's) option \<Rightarrow> ('a \<Rightarrow> ('b, 's) run) \<Rightarrow> ((error + 'b) \<times> 's) option" where
  "and_then res f =
     (case res of
        None \<Rightarrow> None
      | Some (Inl e, st) \<Rightarrow> Some (Inl e, st)
      | Some (Inr a, st) \<Rightarrow> f a st)"

text \<open>\<open>x.__class__.__name__\<close>.\<close>

fun class_name :: "pyclass \<Rightarrow> string" where
  "class_name (Ast c) = c"
| "class_name (Marker ASTMarker) = ''ASTMarker''"
| "class_name (Marker QuasiquoteMarker) = ''QuasiquoteMarker''"
| "class_name (Marker ASTLiteral) = ''ASTLiteral''"
| "class_name (Marker CaptureLater) = ''CaptureLater''"

text \<open>The attribute \<open>x.name\<close> of a node: a field of it, or an AttributeError.\<close>

definition getattr :: "(string \<times> pyval) list \<Rightarrow> string \<Rightarrow> error + pyval" where
  "getattr fs name = (case map_of fs name of None \<Rightarrow> Inl AttributeError | Some v \<Rightarrow> Inr v)"

text \<open>
  The macro branch of \<open>CaptureLater\<close>: the expander is given, the body is a \<open>Name\<close> and
  its \<open>id\<close> is a macro name. The result is the name and \<open>expander.bindings[macroname]\<close>.
\<close>

definition captured_macro :: "expander option \<Rightarrow> pyval \<Rightarrow> error + (string \<times> macro pyobj) option" where
  "captured_macro expander body =
     (case expander of
        None \<Rightarrow> Inr None
      | Some ex \<Rightarrow>
          (case body of
             VNode (Ast c) bfs \<Rightarrow>
               if c = ''Name'' then
                 (case getattr bfs ''id'' of
                    Inl e \<Rightarrow> Inl e
                  | Inr name \<Rightarrow>
                      if ismacroname ex name then
                        (case name of
                           VStr macroname \<Rightarrow>
                             (case map_of (bindings ex) macroname of
                                None \<Rightarrow> Inl KeyError
                              | Some function \<Rightarrow> Inr (Some (macroname, function)))
                         | _ \<Rightarrow> Inr None)
                      else Inr None)
               else Inr None
           | _ \<Rightarrow> Inr None))"

text \<open>
  \<open>astify(x, expander)\<close>, that is \<open>recurse(x)\<close>. The generators run from left to right and
  stop at the first error. In the macro branch \<open>recurse(ast.Name(id=uniquename))\<close> is
  written out: the node has the one field \<open>id\<close>, a str.
\<close>

fun astify :: "expander option \<Rightarrow> pyval \<Rightarrow> (pyval, quotes_state) run"
  and astify_list :: "expander option \<Rightarrow> pyval list \<Rightarrow> (pyval list, quotes_state) run"
  and astify_keys :: "expander option \<Rightarrow> (pyval \<times> pyval) list \<Rightarrow> (pyval list, quotes_state) run"
  and astify_values :: "expander option \<Rightarrow> (pyval \<times> pyval) list \<Rightarrow> (pyval list, quotes_state) run"
  and astify_fields :: "expander option \<Rightarrow> (string \<times> pyval) list \<Rightarrow> (pyval list, quotes_state) run"
where
  "astify ex (VNode (Marker ASTLiteral) fs) st =
     (case getattr fs ''body'' of
        Inl e \<Rightarrow> Some (Inl e, st)
      | Inr body \<Rightarrow> Some (Inr body, st))"
| "astify ex (VNode (Marker CaptureLater) fs) st =
     (case getattr fs ''body'' of
        Inl e \<Rightarrow> Some (Inl e, st)
      | Inr body \<Rightarrow>
          (case captured_macro ex body of
             Inl e \<Rightarrow> Some (Inl e, st)
           | Inr (Some (macroname, function)) \<Rightarrow>
               (case capture_into (hygienic_bindings st) function macroname (gensym_state st) of
                  None \<Rightarrow> None
                | Some (uniquename, reg, g) \<Rightarrow>
                    Some (Inr (Call (Attribute (mcpy_quotes_attr ''ast'') ''Name'') []
                                 [keyword (VStr ''id'') (Constant (VStr uniquename))]),
                          st\<lparr>hygienic_bindings := reg, gensym_state := g\<rparr>))
           | Inr None \<Rightarrow>
               (case getattr fs ''name'' of
                  Inl e \<Rightarrow> Some (Inl e, st)
                | Inr name \<Rightarrow>
                    Some (Inr (Call (mcpy_quotes_attr ''capture'') [body, Constant name] []), st))))"
| "astify ex VNone st = Some (Inr (Constant VNone), st)"
| "astify ex (VBool b) st = Some (Inr (Constant (VBool b)), st)"
| "astify ex (VInt i) st = Some (Inr (Constant (VInt i)), st)"
| "astify ex (VFloat w) st = Some (Inr (Constant (VFloat w)), st)"
| "astify ex (VStr s) st = Some (Inr (Constant (VStr s)), st)"
| "astify ex (VBytes bs) st = Some (Inr (Constant (VBytes bs)), st)"
| "astify ex (VList xs) st =
     and_then (astify_list ex xs st)
       (\<lambda>elts st'. Some (Inr (VNode (Ast ''List'') [(''elts'', VList elts)]), st'))"
| "astify ex (VTuple xs) st =
     and_then (astify_list ex xs st)
       (\<lambda>elts st'. Some (Inr (VNode (Ast ''Tuple'') [(''elts'', VList elts)]), st'))"
| "astify ex (VDict kvs) st =
     and_then (astify_keys ex kvs st)
       (\<lambda>keys st'. and_then (astify_values ex kvs st')
          (\<lambda>vals st''. Some (Inr (VNode (Ast ''Dict'')
                                     [(''keys'', VList keys), (''values'', VList vals)]), st'')))"
| "astify ex (VSet xs) st =
     and_then (astify_list ex xs st)
       (\<lambda>elts st'. Some (Inr (VNode (Ast ''Set'') [(''elts'', VList elts)]), st'))"
| "astify ex (VNode c fs) st =
     and_then (astify_fields ex fs st)
       (\<lambda>fields st'. Some (Inr (Call (Attribute (mcpy_quotes_attr ''ast'') (class_name c)) []
                                    fields), st'))"
| "astify ex (VOther a) st = Some (Inl TypeError, st)"
| "astify_list ex [] st = Some (Inr [], st)"
| "astify_list ex (x # xs) st =
     and_then (astify ex x st)
       (\<lambda>t st'. and_then (astify_list ex xs st') (\<lambda>ts st''. Some (Inr (t # ts), st'')))"
| "astify_keys ex [] st = Some (Inr [], st)"
| "astify_keys ex ((k, v) # kvs) st =
     and_then (astify ex k st)
       (\<lambda>t st'. and_then (astify_keys ex kvs st') (\<lambda>ts st''. Some (Inr (t # ts), st'')))"
| "astify_values ex [] st = Some (Inr [], st)"
| "astify_values ex ((k, v) # kvs) st =
     and_then (astify ex v st)
       (\<lambda>t st'. and_then (astify_values ex kvs st') (\<lambda>ts st''. Some (Inr (t # ts), st'')))"
| "astify_fields ex [] st = Some (Inr [], st)"
| "astify_fields ex ((a, b) # fs) st =
     and_then (astify ex b st)
       (\<lambda>t st'. and_then (astify_fields ex fs st')
          (\<lambda>ts st''. Some (Inr (keyword (VStr a) t # ts), st'')))"

section \<open>quotes.py: unastify\<close>

text \<open>What \<open>for elt in v\<close> goes through, or the TypeError of a value that is not iterable.\<close>

fun iter_of :: "pyval \<Rightarrow> error + pyval list" where
  "iter_of (VList xs) = Inr xs"
| "iter_of (VTuple xs) = Inr xs"
| "iter_of (VSet xs) = Inr xs"
| "iter_of (VDict kvs) = Inr (map fst kvs)"
| "iter_of (VStr s) = Inr (map (\<lambda>c. VStr [c]) s)"
| "iter_of (VBytes bs) = Inr (map (\<lambda>b. VInt (uint b)) bs)"
| "iter_of _ = Inl TypeError"

definition is_class :: "string \<Rightarrow> pyval \<Rightarrow> bool" where
  "is_class c v = (case v of VNode (Ast c') fs \<Rightarrow> c' = c | _ \<Rightarrow> False)"

text \<open>The fields of a node (a value that is not a node has none).\<close>

definition fields_of_node :: "pyval \<Rightarrow> (string \<times> pyval) list" where
  "fields_of_node v = (case v of VNode c fs \<Rightarrow> fs | _ \<Rightarrow> [])"

text \<open>
  The inner \<open>recurse\<close> of \<open>attr_ast_to_dotted_name\<close>: the list \<open>acc\<close>, from the outermost
  attribute name to the \<open>id\<close> of the name at the bottom.
\<close>

function (sequential) attr_names :: "pyval \<Rightarrow> error + pyval list" where
  "attr_names (VNode c fs) =
     (case getattr fs ''attr'' of
        Inl e \<Rightarrow> Inl e
      | Inr a \<Rightarrow>
          (case getattr fs ''value'' of
             Inl e \<Rightarrow> Inl e
           | Inr v \<Rightarrow>
               if is_class ''Attribute'' v then
                 (case attr_names v of Inl e \<Rightarrow> Inl e | Inr acc \<Rightarrow> Inr (a # acc))
               else if is_class ''Name'' v then
                 (case getattr (fields_of_node v) ''id'' of
                    Inl e \<Rightarrow> Inl e
                  | Inr i \<Rightarrow> Inr [a, i])
               else Inl NotImplementedError))"
| "attr_names _ = Inl AttributeError"
  by pat_completeness auto

lemma getattr_size: "getattr fs k = Inr v \<Longrightarrow> size v < size (VNode c fs)"
  by (induction fs) (auto simp: getattr_def split: if_splits option.splits)

termination attr_names
  by (relation "measure size") (auto dest: getattr_size)

text \<open>\<open>".".join(reversed(acc))\<close>: a TypeError when an item is not a str.\<close>

fun join_dotted :: "pyval list \<Rightarrow> error + string" where
  "join_dotted [] = Inr []"
| "join_dotted [VStr s] = Inr s"
| "join_dotted (VStr s # rest) =
     (case join_dotted rest of Inl e \<Rightarrow> Inl e | Inr t \<Rightarrow> Inr (s @ ''.'' @ t))"
| "join_dotted _ = Inl TypeError"

definition attr_ast_to_dotted_name :: "pyval \<Rightarrow> error + string" where
  "attr_ast_to_dotted_name tree =
     (if \<not> is_class ''Attribute'' tree then Inl TypeError
      else (case attr_names tree of
              Inl e \<Rightarrow> Inl e
            | Inr acc \<Rightarrow> join_dotted (rev acc)))"

text \<open>\<open>str.startswith\<close> and \<open>str.split(".")\<close>.\<close>

definition startswith :: "string \<Rightarrow> string \<Rightarrow> bool" where
  "startswith s p = (take (length p) s = p)"

fun split_dots :: "string \<Rightarrow> string list" where
  "split_dots [] = [[]]"
| "split_dots (c # cs) =
     (if c = CHR ''.'' then [] # split_dots cs
      else (case split_dots cs of
              [] \<Rightarrow> [[c]]
            | w # ws \<Rightarrow> (c # w) # ws))"

text \<open>
  \<open>lookup_thing\<close>. The two tests are the code's. What the path names is read in the
  module's globals and by \<open>getattr\<close>: \<open>fields_of c\<close> is the \<open>_fields\<close> of the node
  class that \<open>ast\<close> exports as \<open>c\<close>, \<open>None\<close> when it exports no such class. A path that is
  not \<open>_._.ast.c\<close> for a node class \<open>c\<close> leads out of this theory.
\<close>

definition lookup_thing :: "(string \<Rightarrow> string list option) \<Rightarrow> string \<Rightarrow> error + string \<times> string list" where
  "lookup_thing fields_of dotted_name =
     (if \<not> startswith dotted_name ''mcpy.quotes'' then Inl NotImplementedError
      else let path = split_dots dotted_name
           in if length path < 3 then Inl NotImplementedError
              else if path ! 2 = ''ast'' \<and> length path = 4 then
                (case fields_of (path ! 3) of
                   None \<Rightarrow> Inl Unmodelled
                 | Some names \<Rightarrow> Inr (path ! 3, names))
              else Inl Unmodelled)"

subsection \<open>Keys of sets and dicts\<close>

text \<open>
  The number a finite double stands for, times \<open>2 ^ 1074\<close>; \<open>None\<close> for an infinity or
  a NaN.
\<close>

definition float_scaled :: "64 word \<Rightarrow> int option" where
  "float_scaled w =
     (let e = unat (take_bit 11 (drop_bit 52 w));
          f = uint (take_bit 52 w);
          m = (if e = 0 then f else (2 ^ 52 + f) * 2 ^ (e - 1))
      in if e = 2047 then None else Some (if bit w 63 then - m else m))"

definition float_is_nan :: "64 word \<Rightarrow> bool" where
  "float_is_nan w = (unat (take_bit 11 (drop_bit 52 w)) = 2047 \<and> take_bit 52 w \<noteq> 0)"

text \<open>The number an int, a bool or a finite float stands for, times \<open>2 ^ 1074\<close>.\<close>

fun number_scaled :: "pyval \<Rightarrow> int option" where
  "number_scaled (VInt i) = Some (i * 2 ^ 1074)"
| "number_scaled (VBool b) = Some (if b then 2 ^ 1074 else 0)"
| "number_scaled (VFloat w) = float_scaled w"
| "number_scaled _ = None"

text \<open>
  \<open>a == b\<close> between keys. Numbers compare by value across int, bool and float; a node
  and any other object compare by identity, and the nodes that \<open>unastify\<close> builds are
  new objects, never one another.
\<close>

fun same_key :: "pyval \<Rightarrow> pyval \<Rightarrow> bool"
  and same_keys :: "pyval list \<Rightarrow> pyval list \<Rightarrow> bool" where
  "same_key VNone b = (b = VNone)"
| "same_key (VStr s) b = (b = VStr s)"
| "same_key (VBytes s) b = (b = VBytes s)"
| "same_key (VOther a) b = (b = VOther a)"
| "same_key (VTuple xs) b = (case b of VTuple ys \<Rightarrow> same_keys xs ys | _ \<Rightarrow> False)"
| "same_key (VFloat w) b =
     (case b of
        VFloat w' \<Rightarrow> \<not> float_is_nan w \<and> \<not> float_is_nan w' \<and>
                     (w = w' \<or> (float_scaled w \<noteq> None \<and> float_scaled w = float_scaled w'))
      | _ \<Rightarrow> float_scaled w \<noteq> None \<and> float_scaled w = number_scaled b)"
| "same_key (VInt i) b = (number_scaled (VInt i) = number_scaled b)"
| "same_key (VBool c) b = (number_scaled (VBool c) = number_scaled b)"
| "same_key _ b = False"
| "same_keys [] ys = (ys = [])"
| "same_keys (x # xs) ys = (case ys of [] \<Rightarrow> False | y # ys' \<Rightarrow> same_key x y \<and> same_keys xs ys')"

text \<open>\<open>hash(v)\<close> succeeds: lists, sets and dicts are unhashable, a tuple is as its items are.\<close>

fun hashable :: "pyval \<Rightarrow> bool" where
  "hashable (VList xs) = False"
| "hashable (VSet xs) = False"
| "hashable (VDict kvs) = False"
| "hashable (VTuple xs) = list_all hashable xs"
| "hashable _ = True"

text \<open>Adding to a set, and \<open>d[k] = v\<close>: a key that is there stays as it is.\<close>

definition set_add :: "pyval list \<Rightarrow> pyval \<Rightarrow> error + pyval list" where
  "set_add members x =
     (if \<not> hashable x then Inl TypeError
      else if list_ex (\<lambda>y. same_key y x) members then Inr members
      else Inr (members @ [x]))"

fun dict_replace :: "(pyval \<times> pyval) list \<Rightarrow> pyval \<Rightarrow> pyval \<Rightarrow> (pyval \<times> pyval) list" where
  "dict_replace [] k v = [(k, v)]"
| "dict_replace ((k', v') # rest) k v =
     (if same_key k' k then (k', v) # rest else (k', v') # dict_replace rest k v)"

definition dict_setitem :: "(pyval \<times> pyval) list \<Rightarrow> pyval \<Rightarrow> pyval \<Rightarrow> error + (pyval \<times> pyval) list" where
  "dict_setitem d k v = (if \<not> hashable k then Inl TypeError else Inr (dict_replace d k v))"


subsection \<open>Calling a node class\<close>

text \<open>
  \<open>{k: v for k, v in items}\<close>: each item unpacks into two (a ValueError otherwise) and
  the key is hashed.
\<close>

fun kwargs_of :: "pyval list \<Rightarrow> (pyval \<times> pyval) list \<Rightarrow> error + (pyval \<times> pyval) list" where
  "kwargs_of [] acc = Inr acc"
| "kwargs_of (item # items) acc =
     (case iter_of item of
        Inl e \<Rightarrow> Inl e
      | Inr [k, v] \<Rightarrow>
          (case dict_setitem acc k v of Inl e \<Rightarrow> Inl e | Inr acc' \<Rightarrow> kwargs_of items acc')
      | Inr _ \<Rightarrow> Inl ValueError)"

text \<open>The keys of \<open>**kwargs\<close> are strs, or the call is a TypeError.\<close>

fun str_keys :: "(pyval \<times> pyval) list \<Rightarrow> error + (string \<times> pyval) list" where
  "str_keys [] = Inr []"
| "str_keys ((VStr k, v) # rest) =
     (case str_keys rest of Inl e \<Rightarrow> Inl e | Inr kw \<Rightarrow> Inr ((k, v) # kw))"
| "str_keys _ = Inl TypeError"

text \<open>
  \<open>callee(*args, **kwargs)\<close> for a node class with the given \<open>_fields\<close>: the positional
  arguments fill the fields in order (no more of them than fields), the keywords set
  attributes by name, and the new node has the fields that were set, in the order of
  \<open>_fields\<close>.
\<close>

definition call_node_class :: "string \<times> string list \<Rightarrow> pyval \<Rightarrow> (pyval \<times> pyval) list \<Rightarrow> error + pyval" where
  "call_node_class callee args kwargs =
     (case iter_of args of
        Inl e \<Rightarrow> Inl e
      | Inr pos \<Rightarrow>
          (case str_keys kwargs of
             Inl e \<Rightarrow> Inl e
           | Inr kw \<Rightarrow>
               if length (snd callee) < length pos then Inl TypeError
               else let attrs = map_of (zip (snd callee) pos) ++ map_of kw
                    in Inr (VNode (Ast (fst callee))
                              (concat (map (\<lambda>f. case attrs f of None \<Rightarrow> [] | Some v \<Rightarrow> [(f, v)])
                                           (snd callee))))))"

subsection \<open>unastify\<close>

text \<open>How deep a value nests, for the termination of \<open>unastify\<close>.\<close>

fun depth :: "pyval \<Rightarrow> nat"
  and depths :: "pyval list \<Rightarrow> nat"
  and depths_keys :: "(pyval \<times> pyval) list \<Rightarrow> nat"
  and depths_values :: "(pyval \<times> pyval) list \<Rightarrow> nat"
  and depths_fields :: "(string \<times> pyval) list \<Rightarrow> nat" where
  "depth (VList xs) = Suc (depths xs)"
| "depth (VTuple xs) = Suc (depths xs)"
| "depth (VSet xs) = Suc (depths xs)"
| "depth (VDict kvs) = Suc (max (depths_keys kvs) (depths_values kvs))"
| "depth (VNode c fs) = Suc (depths_fields fs)"
| "depth _ = 0"
| "depths [] = 0"
| "depths (x # xs) = max (depth x) (depths xs)"
| "depths_keys [] = 0"
| "depths_keys ((k, v) # kvs) = max (depth k) (depths_keys kvs)"
| "depths_values [] = 0"
| "depths_values ((k, v) # kvs) = max (depth v) (depths_values kvs)"
| "depths_fields [] = 0"
| "depths_fields ((a, v) # fs) = max (depth v) (depths_fields fs)"

function (sequential)
  unastify :: "(string \<Rightarrow> string list option) \<Rightarrow> pyval \<Rightarrow> error + pyval"
  and unastify_list :: "(string \<Rightarrow> string list option) \<Rightarrow> pyval list \<Rightarrow> error + pyval list"
  and unastify_items ::
    "(string \<Rightarrow> string list option) \<Rightarrow> pyval list \<Rightarrow> pyval list \<Rightarrow> (pyval \<times> pyval) list
      \<Rightarrow> error + (pyval \<times> pyval) list"
  and unastify_members ::
    "(string \<Rightarrow> string list option) \<Rightarrow> pyval list \<Rightarrow> pyval list \<Rightarrow> error + pyval list"
where
  "unastify F (VList xs) =
     (case unastify_list F xs of Inl e \<Rightarrow> Inl e | Inr ys \<Rightarrow> Inr (VList ys))"
| "unastify F (VNode (Ast c) fs) =
     (if c = ''Constant'' then getattr fs ''value''
      else if c = ''keyword'' then
        (case getattr fs ''arg'' of
           Inl e \<Rightarrow> Inl e
         | Inr arg \<Rightarrow>
             (case getattr fs ''value'' of
                Inl e \<Rightarrow> Inl e
              | Inr v \<Rightarrow>
                  (case unastify F v of Inl e \<Rightarrow> Inl e | Inr v' \<Rightarrow> Inr (VTuple [arg, v']))))
      else if c = ''List'' then
        (case getattr fs ''elts'' of
           Inl e \<Rightarrow> Inl e
         | Inr elts \<Rightarrow>
             (case iter_of elts of
                Inl e \<Rightarrow> Inl e
              | Inr xs \<Rightarrow>
                  (case unastify_list F xs of Inl e \<Rightarrow> Inl e | Inr ys \<Rightarrow> Inr (VList ys))))
      else if c = ''Tuple'' then
        (case getattr fs ''elts'' of
           Inl e \<Rightarrow> Inl e
         | Inr elts \<Rightarrow>
             (case iter_of elts of
                Inl e \<Rightarrow> Inl e
              | Inr xs \<Rightarrow>
                  (case unastify_list F xs of Inl e \<Rightarrow> Inl e | Inr ys \<Rightarrow> Inr (VTuple ys))))
      else if c = ''Dict'' then
        (case getattr fs ''keys'' of
           Inl e \<Rightarrow> Inl e
         | Inr keys \<Rightarrow>
             (case getattr fs ''values'' of
                Inl e \<Rightarrow> Inl e
              | Inr vals \<Rightarrow>
                  (case iter_of keys of
                     Inl e \<Rightarrow> Inl e
                   | Inr ks \<Rightarrow>
                       (case iter_of vals of
                          Inl e \<Rightarrow> Inl e
                        | Inr vs \<Rightarrow>
                            (case unastify_items F ks vs [] of
                               Inl e \<Rightarrow> Inl e
                             | Inr d \<Rightarrow> Inr (VDict d))))))
      else if c = ''Set'' then
        (case getattr fs ''elts'' of
           Inl e \<Rightarrow> Inl e
         | Inr elts \<Rightarrow>
             (case iter_of elts of
                Inl e \<Rightarrow> Inl e
              | Inr xs \<Rightarrow>
                  (case unastify_members F xs [] of Inl e \<Rightarrow> Inl e | Inr ms \<Rightarrow> Inr (VSet ms))))
      else if c = ''Call'' then
        (case getattr fs ''func'' of
           Inl e \<Rightarrow> Inl e
         | Inr func \<Rightarrow>
             (case attr_ast_to_dotted_name func of
                Inl e \<Rightarrow> Inl e
              | Inr dotted_name \<Rightarrow>
                  (case lookup_thing F dotted_name of
                     Inl e \<Rightarrow> Inl e
                   | Inr callee \<Rightarrow>
                       (case getattr fs ''args'' of
                          Inl e \<Rightarrow> Inl e
                        | Inr a \<Rightarrow>
                            (case unastify F a of
                               Inl e \<Rightarrow> Inl e
                             | Inr args \<Rightarrow>
                                 (case getattr fs ''keywords'' of
                                    Inl e \<Rightarrow> Inl e
                                  | Inr k \<Rightarrow>
                                      (case unastify F k of
                                         Inl e \<Rightarrow> Inl e
                                       | Inr kws \<Rightarrow>
                                           (case iter_of kws of
                                              Inl e \<Rightarrow> Inl e
                                            | Inr items \<Rightarrow>
                                                (case kwargs_of items [] of
                                                   Inl e \<Rightarrow> Inl e
                                                 | Inr kwargs \<Rightarrow>
                                                     call_node_class callee args kwargs)))))))))
      else Inl TypeError)"
| "unastify F tree = Inl TypeError"
| "unastify_list F [] = Inr []"
| "unastify_list F (x # xs) =
     (case unastify F x of
        Inl e \<Rightarrow> Inl e
      | Inr y \<Rightarrow> (case unastify_list F xs of Inl e \<Rightarrow> Inl e | Inr ys \<Rightarrow> Inr (y # ys)))"
| "unastify_items F (k # ks) (v # vs) acc =
     (case unastify F k of
        Inl e \<Rightarrow> Inl e
      | Inr k' \<Rightarrow>
          (case unastify F v of
             Inl e \<Rightarrow> Inl e
           | Inr v' \<Rightarrow>
               (case dict_setitem acc k' v' of
                  Inl e \<Rightarrow> Inl e
                | Inr acc' \<Rightarrow> unastify_items F ks vs acc')))"
| "unastify_items F ks vs acc = Inr acc"
| "unastify_members F [] acc = Inr acc"
| "unastify_members F (x # xs) acc =
     (case unastify F x of
        Inl e \<Rightarrow> Inl e
      | Inr y \<Rightarrow>
          (case set_add acc y of Inl e \<Rightarrow> Inl e | Inr acc' \<Rightarrow> unastify_members F xs acc'))"
  by pat_completeness auto

lemma getattr_depth: "getattr fs k = Inr v \<Longrightarrow> depth v \<le> depths_fields fs"
  by (induction fs) (auto simp: getattr_def split: if_splits option.splits)

lemma depths_map_fst: "depths (map fst kvs) = depths_keys kvs"
  by (induction kvs) auto

lemma depths_chars: "depths (map (\<lambda>c. VStr [c]) s) = 0"
  by (induction s) auto

lemma depths_bytes: "depths (map (\<lambda>b. VInt (uint b)) bs) = 0"
  by (induction bs) auto

lemma iter_of_depth: "iter_of v = Inr xs \<Longrightarrow> depths xs \<le> depth v"
  by (cases v) (auto simp: depths_map_fst depths_chars depths_bytes)

termination unastify
  apply (relation "measures
      [case_sum (case_sum (\<lambda>(F, t). 2 * depth t) (\<lambda>(F, xs). 2 * depths xs + 1))
         (case_sum (\<lambda>(F, ks, vs, acc). 2 * max (depths ks) (depths vs) + 1)
            (\<lambda>(F, xs, acc). 2 * depths xs + 1)),
       case_sum (case_sum (\<lambda>p. 0) (\<lambda>(F, xs). length xs))
         (case_sum (\<lambda>(F, ks, vs, acc). length ks) (\<lambda>(F, xs, acc). length xs))]")
                 apply simp_all
          apply (auto dest!: getattr_depth iter_of_depth)
  done
section \<open>markers.py\<close>

text \<open>\<open>isinstance(tree, cls)\<close> for a marker class \<open>cls\<close>: \<open>ASTLiteral\<close> and \<open>CaptureLater\<close>
  derive from \<open>QuasiquoteMarker\<close>, which derives from \<open>ASTMarker\<close>.\<close>

fun issubclass :: "marker \<Rightarrow> marker \<Rightarrow> bool" where
  "issubclass m ASTMarker = True"
| "issubclass m QuasiquoteMarker = (m \<noteq> ASTMarker)"
| "issubclass m ASTLiteral = (m = ASTLiteral)"
| "issubclass m CaptureLater = (m = CaptureLater)"

definition isinstance :: "pyval \<Rightarrow> marker \<Rightarrow> bool" where
  "isinstance tree cls = (case tree of VNode (Marker m) fs \<Rightarrow> issubclass m cls | _ \<Rightarrow> False)"

text \<open>
  Modelled from the spec: the walkers \<open>ASTVisitor\<close> and \<open>ASTTransformer\<close> of the module
  \<open>walker\<close>, which is not part of these sources ("generic tree walkers" that "treat
  markers transparently", "tree-wide search/replace-by-predicate"). They are taken to
  walk as \<open>ast.NodeVisitor\<close> and \<open>ast.NodeTransformer\<close> of the standard library do:
  \<open>visit\<close> skips \<open>None\<close>, goes through a list and hands a node to \<open>examine\<close> or
  \<open>transform\<close>; \<open>generic_visit\<close> visits the fields of a node that are nodes, and the
  nodes in the fields that are lists.
\<close>

text \<open>\<open>examine\<close> of \<open>ASTMarkerCollector\<close> with its \<open>generic_visit\<close>: what a node adds to
  \<open>collected\<close>.\<close>

fun examine :: "marker \<Rightarrow> pyval \<Rightarrow> pyval list"
  and examine_fields :: "marker \<Rightarrow> (string \<times> pyval) list \<Rightarrow> pyval list"
  and examine_items :: "marker \<Rightarrow> pyval list \<Rightarrow> pyval list" where
  "examine cls (VNode c fs) =
     (if isinstance (VNode c fs) cls then [VNode c fs] else []) @ examine_fields cls fs"
| "examine cls v = []"
| "examine_fields cls [] = []"
| "examine_fields cls ((a, VList items) # fs) = examine_items cls items @ examine_fields cls fs"
| "examine_fields cls ((a, VNode c fs') # fs) = examine cls (VNode c fs') @ examine_fields cls fs"
| "examine_fields cls ((a, v) # fs) = examine_fields cls fs"
| "examine_items cls [] = []"
| "examine_items cls (VNode c fs # items) = examine cls (VNode c fs) @ examine_items cls items"
| "examine_items cls (v # items) = examine_items cls items"

text \<open>\<open>w.visit(tree)\<close> at the top: a value that is not a node has no \<open>_fields\<close> to go
  through.\<close>

fun collect :: "marker \<Rightarrow> pyval \<Rightarrow> error + pyval list"
  and collect_list :: "marker \<Rightarrow> pyval list \<Rightarrow> error + pyval list" where
  "collect cls VNone = Inr []"
| "collect cls (VList xs) = collect_list cls xs"
| "collect cls (VNode c fs) = Inr (examine cls (VNode c fs))"
| "collect cls v = Inl AttributeError"
| "collect_list cls [] = Inr []"
| "collect_list cls (x # xs) =
     (case collect cls x of
        Inl e \<Rightarrow> Inl e
      | Inr ms \<Rightarrow> (case collect_list cls xs of Inl e \<Rightarrow> Inl e | Inr ms' \<Rightarrow> Inr (ms @ ms')))"

definition get_markers :: "pyval \<Rightarrow> marker \<Rightarrow> error + pyval list" where
  "get_markers tree cls = collect cls tree"

text \<open>
  \<open>transform\<close> of \<open>ASTMarkerDeleter\<close> and the \<open>generic_visit\<close> it ends with. In a list
  field, a visit that returns \<open>None\<close> drops the item and one that returns a list splices
  it; a node field whose visit returns \<open>None\<close> is deleted.
\<close>

function (sequential) transform :: "marker \<Rightarrow> pyval \<Rightarrow> error + pyval"
  and generic_visit :: "marker \<Rightarrow> pyval \<Rightarrow> error + pyval"
  and visit_fields :: "marker \<Rightarrow> (string \<times> pyval) list \<Rightarrow> error + (string \<times> pyval) list"
  and visit_items :: "marker \<Rightarrow> pyval list \<Rightarrow> error + pyval list" where
  "transform cls (VNode c fs) =
     (if isinstance (VNode c fs) cls then
        (case getattr fs ''body'' of
           Inl e \<Rightarrow> Inl e
         | Inr body \<Rightarrow> generic_visit cls body)
      else generic_visit cls (VNode c fs))"
| "transform cls v = generic_visit cls v"
| "generic_visit cls (VNode c fs) =
     (case visit_fields cls fs of Inl e \<Rightarrow> Inl e | Inr fs' \<Rightarrow> Inr (VNode c fs'))"
| "generic_visit cls v = Inl AttributeError"
| "visit_fields cls [] = Inr []"
| "visit_fields cls ((a, VList items) # fs) =
     (case visit_items cls items of
        Inl e \<Rightarrow> Inl e
      | Inr items' \<Rightarrow>
          (case visit_fields cls fs of
             Inl e \<Rightarrow> Inl e
           | Inr fs' \<Rightarrow> Inr ((a, VList items') # fs')))"
| "visit_fields cls ((a, VNode c fs0) # fs) =
     (case transform cls (VNode c fs0) of
        Inl e \<Rightarrow> Inl e
      | Inr new_node \<Rightarrow>
          (case visit_fields cls fs of
             Inl e \<Rightarrow> Inl e
           | Inr fs' \<Rightarrow> Inr (if new_node = VNone then fs' else (a, new_node) # fs')))"
| "visit_fields cls ((a, v) # fs) =
     (case visit_fields cls fs of Inl e \<Rightarrow> Inl e | Inr fs' \<Rightarrow> Inr ((a, v) # fs'))"
| "visit_items cls [] = Inr []"
| "visit_items cls (VNode c fs0 # items) =
     (case transform cls (VNode c fs0) of
        Inl e \<Rightarrow> Inl e
      | Inr value \<Rightarrow>
          (case visit_items cls items of
             Inl e \<Rightarrow> Inl e
           | Inr new_values \<Rightarrow>
               (case value of
                  VNone \<Rightarrow> Inr new_values
                | VNode c' fs' \<Rightarrow> Inr (value # new_values)
                | _ \<Rightarrow> (case iter_of value of
                          Inl e \<Rightarrow> Inl e
                        | Inr vs \<Rightarrow> Inr (vs @ new_values)))))"
| "visit_items cls (v # items) =
     (case visit_items cls items of Inl e \<Rightarrow> Inl e | Inr new_values \<Rightarrow> Inr (v # new_values))"
  by pat_completeness auto

termination
  by (relation "measures
      [case_sum (case_sum (\<lambda>(cls, t). size t) (\<lambda>(cls, t). size t))
         (case_sum (\<lambda>(cls, fs). size_list (size_prod (\<lambda>a. 0) size) fs)
            (\<lambda>(cls, xs). size_list size xs)),
       case_sum (case_sum (\<lambda>p. Suc 0) (\<lambda>p. 0)) (\<lambda>p. 0)]")
    (auto dest: getattr_size)

text \<open>\<open>flatten_suite\<close> of \<open>utilities.py\<close>: lists are spliced, \<open>None\<close> is left out, and an
  empty result is \<open>None\<close>.\<close>

fun flatten_items :: "pyval list \<Rightarrow> pyval list" where
  "flatten_items [] = []"
| "flatten_items (VList ys # xs) = ys @ flatten_items xs"
| "flatten_items (VNone # xs) = flatten_items xs"
| "flatten_items (x # xs) = x # flatten_items xs"

definition flatten_suite :: "pyval list \<Rightarrow> pyval" where
  "flatten_suite lst = (let out = flatten_items lst in if out = [] then VNone else VList out)"

text \<open>\<open>ASTMarkerDeleter().visit(tree)\<close>: \<open>None\<close> stays, a list is visited item by item
  and flattened, anything else is transformed.\<close>

fun visit_top :: "marker \<Rightarrow> pyval \<Rightarrow> error + pyval"
  and visit_top_list :: "marker \<Rightarrow> pyval list \<Rightarrow> error + pyval list" where
  "visit_top cls VNone = Inr VNone"
| "visit_top cls (VList xs) =
     (case visit_top_list cls xs of Inl e \<Rightarrow> Inl e | Inr ys \<Rightarrow> Inr (flatten_suite ys))"
| "visit_top cls v = transform cls v"
| "visit_top_list cls [] = Inr []"
| "visit_top_list cls (x # xs) =
     (case visit_top cls x of
        Inl e \<Rightarrow> Inl e
      | Inr y \<Rightarrow> (case visit_top_list cls xs of Inl e \<Rightarrow> Inl e | Inr ys \<Rightarrow> Inr (y # ys)))"

definition delete_markers :: "pyval \<Rightarrow> marker \<Rightarrow> error + pyval" where
  "delete_markers tree cls = visit_top cls tree"

section \<open>quotes.py: the quasiquote operators\<close>

text \<open>
  What the operators call in modules that are not part of these sources: the function
  \<open>expand_macros(tree, bindings, filename)\<close> of the expander module, which walks as
  \<open>visit_recursively\<close> does (the returned tree, and the argument as the walk leaves it),
  and the renderer \<open>unparse\<close>.
\<close>

record externals =
  expand_macros ::
    "pyval \<Rightarrow> (string \<times> macro pyobj) list \<Rightarrow> string \<Rightarrow> (pyval \<times> pyval, quotes_state) run"
  unparse :: "pyval \<Rightarrow> string"

text \<open>\<open>v in (q, u, n, a, s, h)\<close>.\<close>

definition is_quasiquote_macro :: "macro pyobj \<Rightarrow> bool" where
  "is_quasiquote_macro v =
     (content v \<in> {Macro_q, Macro_u, Macro_n, Macro_a, Macro_s, Macro_h})"

definition expand_quasiquotes :: "externals \<Rightarrow> pyval \<Rightarrow> expander \<Rightarrow> (pyval \<times> pyval, quotes_state) run" where
  "expand_quasiquotes ext tree ex =
     expand_macros ext tree (filter (\<lambda>(k, v). is_quasiquote_macro v) (bindings ex)) (filename ex)"

text \<open>
  \<open>_unquote_expand(tree, expander)\<close>. It binds the expanded tree to its local name and
  returns nothing: what its caller goes on with is the argument as the walk left it,
  which is the result here.
\<close>

definition unquote_expand :: "externals \<Rightarrow> pyval \<Rightarrow> expander \<Rightarrow> (pyval, quotes_state) run" where
  "unquote_expand ext tree ex st =
     (case get_value st of
        Inl e \<Rightarrow> Some (Inl e, st)
      | Inr level \<Rightarrow>
          and_then (if level = 0 then visit_recursively ex tree st
                    else expand_quasiquotes ext tree ex st)
            (\<lambda>walked st'. Some (Inr (snd walked), st')))"

definition ASTLiteral_node :: "pyval \<Rightarrow> pyval" where
  "ASTLiteral_node body = VNode (Marker ASTLiteral) [(''body'', body)]"

definition CaptureLater_node :: "pyval \<Rightarrow> pyval \<Rightarrow> pyval" where
  "CaptureLater_node body name = VNode (Marker CaptureLater) [(''body'', body), (''name'', name)]"

text \<open>
  The operators take the tree, \<open>syntax\<close>, the expander and the other keyword arguments
  \<open>kw\<close>. Their names end in \<open>_op\<close> here: one letter would name every variable of the
  proofs. \<open>q_body\<close> is the block under \<open>with _quotelevel.changed_by(+1)\<close> in \<open>q\<close>.
\<close>

definition q_body ::
  "externals \<Rightarrow> pyval \<Rightarrow> string \<Rightarrow> expander \<Rightarrow> (string \<times> pyval) list \<Rightarrow> (pyval, quotes_state) run" where
  "q_body ext tree syntax ex kw st =
     and_then (expand_quasiquotes ext tree ex st)
       (\<lambda>expanded st. and_then (astify (Some ex) (fst expanded) st)
          (\<lambda>tree st.
             (case get_markers tree QuasiquoteMarker of
                Inl e \<Rightarrow> Some (Inl e, st)
              | Inr ps \<Rightarrow>
                  if ps \<noteq> [] then Some (Inl AssertionError, st)
                  else if syntax = ''block'' then
                    (case map_of kw ''optional_vars'' of
                       None \<Rightarrow> Some (Inl KeyError, st)
                     | Some target \<Rightarrow>
                         if \<not> is_class ''Name'' target then
                           Some (Inl (SyntaxError (''expected a single asname, got '' @
                                                    unparse ext target)), st)
                         else Some (Inr (VNode (Ast ''Assign'')
                                          [(''targets'', VList [target]), (''value'', tree)]),
                                    st))
                  else Some (Inr tree, st))))"

definition q_op ::
  "externals \<Rightarrow> pyval \<Rightarrow> string \<Rightarrow> expander \<Rightarrow> (string \<times> pyval) list \<Rightarrow> (pyval, quotes_state) run" where
  "q_op ext tree syntax ex kw st =
     (if syntax \<noteq> ''expr'' \<and> syntax \<noteq> ''block'' then
        Some (Inl (SyntaxError ''q is an expr and block macro only''), st)
      else with_changed_by 1 (q_body ext tree syntax ex kw) st)"

text \<open>The test \<open>_quotelevel.value < 1\<close> of the five unquote operators.\<close>

definition below_quote :: "string \<Rightarrow> quotes_state \<Rightarrow> error option" where
  "below_quote name st =
     (case get_value st of
        Inl e \<Rightarrow> Some e
      | Inr level \<Rightarrow>
          if level < 1 then Some (SyntaxError (name @ ''[] encountered while quotelevel < 1''))
          else None)"

definition u_op ::
  "externals \<Rightarrow> pyval \<Rightarrow> string \<Rightarrow> expander \<Rightarrow> (string \<times> pyval) list \<Rightarrow> (pyval, quotes_state) run" where
  "u_op ext tree syntax ex kw st =
     (if syntax \<noteq> ''expr'' then Some (Inl (SyntaxError ''u is an expr macro only''), st)
      else (case below_quote ''u'' st of
              Some e \<Rightarrow> Some (Inl e, st)
            | None \<Rightarrow>
                with_changed_by (- 1)
                  (\<lambda>st. and_then (unquote_expand ext tree ex st)
                     (\<lambda>tree st. Some (Inr (ASTLiteral_node
                                            (Call (mcpy_quotes_attr ''astify'') [tree] [])), st)))
                  st))"

definition n_op ::
  "pyval \<Rightarrow> string \<Rightarrow> (string \<times> pyval) list \<Rightarrow> (pyval, quotes_state) run" where
  "n_op tree syntax kw st =
     (if syntax \<noteq> ''expr'' then Some (Inl (SyntaxError ''n is an expr macro only''), st)
      else (case below_quote ''n'' st of
              Some e \<Rightarrow> Some (Inl e, st)
            | None \<Rightarrow>
                with_changed_by (- 1)
                  (\<lambda>st. and_then
                     (astify None (VNode (Ast ''Name'') [(''id'', ASTLiteral_node tree)]) st)
                     (\<lambda>lifted st. Some (Inr (ASTLiteral_node lifted), st)))
                  st))"

definition a_op ::
  "pyval \<Rightarrow> string \<Rightarrow> (string \<times> pyval) list \<Rightarrow> (pyval, quotes_state) run" where
  "a_op tree syntax kw st =
     (if syntax \<noteq> ''expr'' then Some (Inl (SyntaxError ''a is an expr macro only''), st)
      else (case below_quote ''a'' st of
              Some e \<Rightarrow> Some (Inl e, st)
            | None \<Rightarrow>
                with_changed_by (- 1) (\<lambda>st. Some (Inr (ASTLiteral_node tree), st)) st))"

definition s_op ::
  "pyval \<Rightarrow> string \<Rightarrow> (string \<times> pyval) list \<Rightarrow> (pyval, quotes_state) run" where
  "s_op tree syntax kw st =
     (if syntax \<noteq> ''expr'' then Some (Inl (SyntaxError ''s is an expr macro only''), st)
      else (case below_quote ''s'' st of
              Some e \<Rightarrow> Some (Inl e, st)
            | None \<Rightarrow>
                Some (Inr (ASTLiteral_node
                             (Call (VNode (Ast ''Attribute'')
                                      [(''value'', mcpy_quotes_attr ''ast''), (''attr'', VStr ''List'')])
                                []
                                [keyword (VStr ''elts'') tree])), st)))"

definition h_op ::
  "externals \<Rightarrow> pyval \<Rightarrow> string \<Rightarrow> expander \<Rightarrow> (string \<times> pyval) list \<Rightarrow> (pyval, quotes_state) run" where
  "h_op ext tree syntax ex kw st =
     (if syntax \<noteq> ''expr'' then Some (Inl (SyntaxError ''h is an expr macro only''), st)
      else (case below_quote ''h'' st of
              Some e \<Rightarrow> Some (Inl e, st)
            | None \<Rightarrow>
                with_changed_by (- 1)
                  (\<lambda>st. let name = unparse ext tree
                        in and_then (unquote_expand ext tree ex st)
                             (\<lambda>tree st. Some (Inr (CaptureLater_node tree (VStr name)), st)))
                  st))"

section \<open>visitors.py\<close>

text \<open>
  An exception object: its class, its message and its \<open>__cause__\<close>. A class is
  \<open>MacroExpansionError\<close>, another class that derives from \<open>Exception\<close>, or a class that
  derives from \<open>BaseException\<close> only (\<open>KeyboardInterrupt\<close>, \<open>SystemExit\<close>).
\<close>

datatype exc_class = MacroExpansionError | Exception_class string | BaseException_class string

datatype exc = Exc exc_class string "exc option"




text \<open>
  A macro, by what it does: called on a tree with the syntax flag and the keyword
  arguments of the use site, it returns its expansion or raises. The callbacks that
  \<open>_expand\<close> adds to \<open>kw\<close> (\<open>to_source\<close>, \<open>expand_macros\<close>, \<open>expand_once\<close>, \<open>expander\<close>) are
  the expander's own and are part of what the macro does here.
\<close>

type_synonym macro_function = "pyval \<Rightarrow> string \<Rightarrow> (string \<times> pyval) list \<Rightarrow> exc + pyval"

text \<open>
  What the class takes from elsewhere: \<open>visit\<close> of \<open>ast.NodeTransformer\<close> with the
  \<open>visit_\<close> methods of the subclass in use, \<open>unparse\<close>, the line number a node carries
  (\<open>None\<close> when it has no attribute \<open>lineno\<close>), and the two fixers.
\<close>

record visitor_externals =
  super_visit :: "macro_function BaseMacroExpander \<Rightarrow> pyval \<Rightarrow> exc + pyval"
  to_source :: "pyval \<Rightarrow> string"
  lineno :: "pyval \<Rightarrow> int option"
  fix_missing_locations :: "pyval \<Rightarrow> pyval"
  fix_missing_ctx :: "pyval \<Rightarrow> pyval"

text \<open>\<open>visit\<close>: \<open>tree if not self.bindings else super().visit(tree)\<close>.\<close>

definition visit :: "visitor_externals \<Rightarrow> macro_function BaseMacroExpander \<Rightarrow> pyval \<Rightarrow> exc + pyval" where
  "visit ext self tree = (if bindings self = [] then Inr tree else super_visit ext self tree)"

text \<open>\<open>visit_once\<close>: the flag is off for the visit and back afterwards.\<close>

definition visit_once :: "visitor_externals \<Rightarrow> macro_function BaseMacroExpander \<Rightarrow> pyval \<Rightarrow> exc + pyval" where
  "visit_once ext self tree = visit ext (self\<lparr>recursive := False\<rparr>) tree"








section \<open>expander.py: the expansion of the macros in a tree\<close>

text \<open>
  Modelled from the spec: the function \<open>expand_macros\<close> and the expander that it runs, of
  the module \<open>expander\<close>, which is not part of these sources. The spec has it so: "the
  expansion visitor walks the tree looking for invocation sites bound in a
  name\<rightarrow>transformer mapping; each site's transformer is invoked with an expansion
  context"; "after the transformer returns, the visitor postprocesses the result and,
  unless running in single-step mode, recurses into it to expand further invocations,
  including ones the transformer itself produced". The expander is a
  \<open>BaseMacroExpander\<close>: a site goes through \<open>_expand\<close> and \<open>_visit_expansion\<close> as
  \<open>visitors.py\<close> has them, any other node through \<open>generic_visit\<close> of
  \<open>ast.NodeTransformer\<close>. The macros are those of \<open>quotes.py\<close> and the state is the
  module state of \<open>quotes.py\<close>. The sites are those of expr macros, \<open>name[tree]\<close> with a
  bound name (the form of \<open>q[...]\<close> and \<open>u[...]\<close>); block and decorator sites are left out.
\<close>

text \<open>A site \<open>name[tree]\<close>: a \<open>Subscript\<close> whose \<open>value\<close> is a \<open>Name\<close> that the table binds; the
  result is the macro and the operand, the \<open>slice\<close> of the node.\<close>

definition macro_site :: "(string \<times> 'm) list \<Rightarrow> pyval \<Rightarrow> ('m \<times> pyval) option" where
  "macro_site bs tree =
     (if is_class ''Subscript'' tree then
        (case getattr (fields_of_node tree) ''value'' of
           Inl e \<Rightarrow> None
         | Inr candidate \<Rightarrow>
             if is_class ''Name'' candidate then
               (case getattr (fields_of_node candidate) ''id'' of
                  Inr (VStr name) \<Rightarrow>
                    (case map_of bs name of
                       None \<Rightarrow> None
                     | Some macro \<Rightarrow>
                         (case getattr (fields_of_node tree) ''slice'' of
                            Inl e \<Rightarrow> None
                          | Inr operand \<Rightarrow> Some (macro, operand)))
                | _ \<Rightarrow> None)
             else None)
      else None)"

text \<open>\<open>_apply_macro\<close> of \<open>visitors.py\<close>, that is \<open>macro(tree, **kw)\<close>, for the macros of
  \<open>quotes.py\<close>; \<open>syntax\<close> and \<open>expander\<close> are among the keyword arguments.\<close>

definition apply_quote_macro ::
  "externals \<Rightarrow> expander \<Rightarrow> macro pyobj \<Rightarrow> pyval \<Rightarrow> string \<Rightarrow> (string \<times> pyval) list
    \<Rightarrow> (pyval, quotes_state) run" where
  "apply_quote_macro ext self macro tree syntax kw st =
     (case content macro of
        Macro_q \<Rightarrow> q_op ext tree syntax self kw st
      | Macro_u \<Rightarrow> u_op ext tree syntax self kw st
      | Macro_n \<Rightarrow> n_op tree syntax kw st
      | Macro_a \<Rightarrow> a_op tree syntax kw st
      | Macro_s \<Rightarrow> s_op tree syntax kw st
      | Macro_h \<Rightarrow> h_op ext tree syntax self kw st
      | Macro_other \<Rightarrow> Some (Inl Unmodelled, st))"

text \<open>
  \<open>generic_visit\<close> of \<open>ast.NodeTransformer\<close> over the fields of a node, \<open>visit\<close> being the
  given function: in a list field the nodes are visited (a result \<open>None\<close> drops the
  item, a result that is not a node is spliced in), a node field is visited (a result
  \<open>None\<close> deletes the field), any other field is kept.
\<close>

fun visit_items_with :: "(pyval \<Rightarrow> (pyval, 's) run) \<Rightarrow> pyval list \<Rightarrow> (pyval list, 's) run" where
  "visit_items_with f [] st = Some (Inr [], st)"
| "visit_items_with f (VNode c fs # items) st =
     and_then (f (VNode c fs) st)
       (\<lambda>value st.
          (case value of
             VNone \<Rightarrow> visit_items_with f items st
           | VNode c' fs' \<Rightarrow>
               and_then (visit_items_with f items st)
                 (\<lambda>new_values st. Some (Inr (value # new_values), st))
           | _ \<Rightarrow>
               (case iter_of value of
                  Inl e \<Rightarrow> Some (Inl e, st)
                | Inr vs \<Rightarrow>
                    and_then (visit_items_with f items st)
                      (\<lambda>new_values st. Some (Inr (vs @ new_values), st)))))"
| "visit_items_with f (v # items) st =
     and_then (visit_items_with f items st) (\<lambda>new_values st. Some (Inr (v # new_values), st))"

fun visit_fields_with ::
  "(pyval \<Rightarrow> (pyval, 's) run) \<Rightarrow> (string \<times> pyval) list \<Rightarrow> ((string \<times> pyval) list, 's) run" where
  "visit_fields_with f [] st = Some (Inr [], st)"
| "visit_fields_with f ((a, VList items) # fs) st =
     and_then (visit_items_with f items st)
       (\<lambda>new_values st.
          and_then (visit_fields_with f fs st)
            (\<lambda>fs' st. Some (Inr ((a, VList new_values) # fs'), st)))"
| "visit_fields_with f ((a, VNode c fs0) # fs) st =
     and_then (f (VNode c fs0) st)
       (\<lambda>new_node st.
          and_then (visit_fields_with f fs st)
            (\<lambda>fs' st. Some (Inr (if new_node = VNone then fs' else (a, new_node) # fs'), st)))"
| "visit_fields_with f ((a, v) # fs) st =
     and_then (visit_fields_with f fs st) (\<lambda>fs' st. Some (Inr ((a, v) # fs'), st))"

text \<open>\<open>map(self.visit, expansion)\<close> read into a list.\<close>

fun visit_each_with :: "(pyval \<Rightarrow> (pyval, 's) run) \<Rightarrow> pyval list \<Rightarrow> (pyval list, 's) run" where
  "visit_each_with f [] st = Some (Inr [], st)"
| "visit_each_with f (x # xs) st =
     and_then (f x st)
       (\<lambda>y st. and_then (visit_each_with f xs st) (\<lambda>ys st. Some (Inr (y # ys), st)))"

text \<open>\<open>_visit_expansion\<close> of \<open>visitors.py\<close> on the module state, in recursive mode (the mode
  of an expander that \<open>expand_macros\<close> has just made), \<open>self.visit\<close> being the given
  function.\<close>

definition visit_expansion_with ::
  "visitor_externals \<Rightarrow> (pyval \<Rightarrow> (pyval, 's) run) \<Rightarrow> pyval \<Rightarrow> (pyval, 's) run" where
  "visit_expansion_with vx f expansion st =
     (case expansion of
        VNone \<Rightarrow> Some (Inr VNone, st)
      | VNode c fs \<Rightarrow> f (fix_missing_ctx vx (fix_missing_locations vx expansion)) st
      | _ \<Rightarrow>
          (case iter_of expansion of
             Inl e \<Rightarrow> Some (Inl TypeError, st)
           | Inr xs \<Rightarrow>
               and_then
                 (visit_each_with f
                    (map (\<lambda>x. fix_missing_ctx vx (fix_missing_locations vx x)) xs) st)
                 (\<lambda>ys st. Some (Inr (VList ys), st))))"

text \<open>What a walk gives to its caller: the tree it returns, and its argument as the walk
  leaves it, which is the returned tree unless the argument was a site itself.\<close>

definition walked ::
  "(string \<times> macro pyobj) list \<Rightarrow> pyval \<Rightarrow> (pyval, quotes_state) run \<Rightarrow> (pyval \<times> pyval, quotes_state) run" where
  "walked bs tree walk st =
     and_then (walk st)
       (\<lambda>t st. Some (Inr (t, if macro_site bs tree = None then t else tree), st))"

text \<open>
  \<open>visit\<close> of the expander, with a bound on the depth of the calls: a walk that exceeds it
  does not return. With no bindings the tree is returned as it is (\<open>visit\<close> of
  \<open>BaseMacroExpander\<close>). At a site, \<open>_expand\<close>: the macro is applied to the operand, with
  this expander as \<open>expander\<close>; what it raises is raised as a \<open>MacroExpansionError\<close> (from
  the cause of the error when that is a \<open>MacroExpansionError\<close> already); the expansion
  is visited in turn. Any other node is walked by \<open>generic_visit\<close>, which fails on a
  value that has no \<open>_fields\<close>.
\<close>

primrec expander_visit ::
  "nat \<Rightarrow> visitor_externals \<Rightarrow> (string \<times> macro pyobj) list \<Rightarrow> string \<Rightarrow> pyval \<Rightarrow> (pyval, quotes_state) run" where
  "expander_visit 0 vx bs file tree st = None"
| "expander_visit (Suc n) vx bs file tree st =
     (if bs = [] then Some (Inr tree, st)
      else
        (case macro_site bs tree of
           Some (macro, operand) \<Rightarrow>
             (case apply_quote_macro
                     \<lparr>expand_macros = (\<lambda>t bs' file'. walked bs' t (expander_visit n vx bs' file' t)),
                      unparse = to_source vx\<rparr>
                     \<lparr>bindings = bs, filepath = file, recursive = True, filename = file,
                      visit_recursively = (\<lambda>t. walked bs t (expander_visit n vx bs file t))\<rparr>
                     macro operand ''expr'' [] st of
                None \<Rightarrow> None
              | Some (Inl err, st') \<Rightarrow>
                  Some (Inl (ExpansionError (case err of ExpansionError inner \<Rightarrow> inner | _ \<Rightarrow> err)), st')
              | Some (Inr expansion, st') \<Rightarrow>
                  visit_expansion_with vx (expander_visit n vx bs file) expansion st')
         | None \<Rightarrow>
             (case tree of
                VNode c fs \<Rightarrow>
                  and_then (visit_fields_with (expander_visit n vx bs file) fs st)
                    (\<lambda>fs' st. Some (Inr (VNode c fs'), st))
              | _ \<Rightarrow> Some (Inl AttributeError, st))))"

text \<open>\<open>expand_macros(tree, bindings, filename)\<close>, and the functions of the expander module
  that \<open>quotes.py\<close> calls.\<close>

definition expander_externals :: "nat \<Rightarrow> visitor_externals \<Rightarrow> externals" where
  "expander_externals n vx =
     \<lparr>expand_macros = (\<lambda>tree bs file. walked bs tree (expander_visit n vx bs file tree)),
      unparse = to_source vx\<rparr>"

section \<open>Notions used in the statements\<close>

text \<open>\<open>sub in s\<close> for strs.\<close>

fun contains :: "string \<Rightarrow> string \<Rightarrow> bool" where
  "contains [] sub = (sub = [])"
| "contains (c # cs) sub = (startswith (c # cs) sub \<or> contains cs sub)"




text \<open>
  The values of a set, and the keys of a dict, are pairwise different as keys: no
  member is \<open>==\<close> to a later one.
\<close>

fun distinct_keys :: "pyval list \<Rightarrow> bool" where
  "distinct_keys [] = True"
| "distinct_keys (x # xs) = (list_all (\<lambda>y. \<not> same_key x y) xs \<and> distinct_keys xs)"

text \<open>The fields a node has are fields of its class, in the order of \<open>_fields\<close>.\<close>

definition fields_in_order :: "string list \<Rightarrow> string list \<Rightarrow> bool" where
  "fields_in_order names keys = (distinct names \<and> keys = filter (\<lambda>f. f \<in> set keys) names)"

text \<open>
  The values that \<open>astify\<close> and \<open>unastify\<close> handle jointly: atoms; lists and tuples of
  such values; sets and dicts of them, as Python has them (hashable keys, pairwise
  different); and nodes of classes of \<open>ast\<close> (a class name is an identifier: it has no
  dot) whose fields hold such values. A marker is not one of them, nor a value that
  holds one.
\<close>

fun liftable :: "(string \<Rightarrow> string list option) \<Rightarrow> pyval \<Rightarrow> bool"
  and liftable_list :: "(string \<Rightarrow> string list option) \<Rightarrow> pyval list \<Rightarrow> bool"
  and liftable_keys :: "(string \<Rightarrow> string list option) \<Rightarrow> (pyval \<times> pyval) list \<Rightarrow> bool"
  and liftable_values :: "(string \<Rightarrow> string list option) \<Rightarrow> (pyval \<times> pyval) list \<Rightarrow> bool"
  and liftable_fields :: "(string \<Rightarrow> string list option) \<Rightarrow> (string \<times> pyval) list \<Rightarrow> bool" where
  "liftable F (VList xs) = liftable_list F xs"
| "liftable F (VTuple xs) = liftable_list F xs"
| "liftable F (VSet xs) = (liftable_list F xs \<and> list_all hashable xs \<and> distinct_keys xs)"
| "liftable F (VDict kvs) =
     (liftable_keys F kvs \<and> liftable_values F kvs \<and> list_all hashable (map fst kvs) \<and>
      distinct_keys (map fst kvs))"
| "liftable F (VNode (Ast c) fs) =
     (CHR ''.'' \<notin> set c \<and>
      (case F c of None \<Rightarrow> False | Some names \<Rightarrow> fields_in_order names (map fst fs)) \<and>
      liftable_fields F fs)"
| "liftable F (VNode (Marker m) fs) = False"
| "liftable F (VOther a) = False"
| "liftable F v = True"
| "liftable_list F [] = True"
| "liftable_list F (x # xs) = (liftable F x \<and> liftable_list F xs)"
| "liftable_keys F [] = True"
| "liftable_keys F ((k, v) # kvs) = (liftable F k \<and> liftable_keys F kvs)"
| "liftable_values F [] = True"
| "liftable_values F ((k, v) # kvs) = (liftable F v \<and> liftable_values F kvs)"
| "liftable_fields F [] = True"
| "liftable_fields F ((a, v) # fs) = (liftable F v \<and> liftable_fields F fs)"

section \<open>Concrete inputs\<close>

text \<open>The inputs at which the statements below are instantiated.\<close>

definition level0 :: quotes_state where
  "level0 = \<lparr>stack = [0], hygienic_bindings = [],
             gensym_state = \<lparr>previous_gensyms = {}, uuid4s = []\<rparr>\<rparr>"

definition level1 :: quotes_state where
  "level1 = level0\<lparr>stack := [0, 1]\<rparr>"

definition plain_externals :: externals where
  "plain_externals =
     \<lparr>expand_macros = (\<lambda>tree bs file st. Some (Inr (tree, tree), st)), unparse = (\<lambda>t. ''x'')\<rparr>"

definition failing_externals :: externals where
  "failing_externals =
     \<lparr>expand_macros = (\<lambda>tree bs file st. Some (Inl TypeError, st)), unparse = (\<lambda>t. ''x'')\<rparr>"

definition plain_expander :: expander where
  "plain_expander =
     \<lparr>bindings = [], filepath = ''m.py'', recursive = True, filename = ''m.py'',
      visit_recursively = (\<lambda>tree st. Some (Inr (tree, tree), st))\<rparr>"

definition name_x :: pyval where
  "name_x = VNode (Ast ''Name'') [(''id'', VStr ''x''), (''ctx'', Load)]"

definition plain_visitor :: visitor_externals where
  "plain_visitor =
     \<lparr>super_visit = (\<lambda>self tree. Inr tree), to_source = (\<lambda>t. ''x''), lineno = (\<lambda>t. Some 7),
      fix_missing_locations = (\<lambda>t. t), fix_missing_ctx = (\<lambda>t. t)\<rparr>"

definition traced0 :: traced where
  "traced0 = \<lparr>stack = [0], seen = [[0]]\<rparr>"

definition nested_body :: body where
  "nested_body =
     Seq (SetTo (VInt 2) (ChangedBy (- 1) (Raise KeyError)))
         (TryExcept (ChangedBy (- 1) Pass) (SetTo (VStr ''3'') Pass))"









text \<open>The \<open>_fields\<close> of a few classes of \<open>ast\<close>.\<close>

definition some_fields :: "string \<Rightarrow> string list option" where
  "some_fields c =
     (if c = ''Name'' then Some [''id'', ''ctx'']
      else if c = ''Load'' then Some []
      else if c = ''Constant'' then Some [''value'', ''kind'']
      else None)"

text \<open>A NaN: the exponent is all ones and the fraction is not zero.\<close>

definition nan :: "64 word" where
  "nan = 0x7FF8000000000000"

text \<open>The tree of \<open>name[operand]\<close>.\<close>

definition subscript :: "string \<Rightarrow> pyval \<Rightarrow> pyval" where
  "subscript name operand =
     VNode (Ast ''Subscript'')
       [(''value'', VNode (Ast ''Name'') [(''id'', VStr name), (''ctx'', Load)]),
        (''slice'', operand), (''ctx'', Load)]"

text \<open>The six operators under their own names, and an expander that binds them.\<close>

definition quote_bindings :: "(string \<times> macro pyobj) list" where
  "quote_bindings =
     [(''q'', \<lparr>ident = 10, content = Macro_q\<rparr>), (''u'', \<lparr>ident = 11, content = Macro_u\<rparr>),
      (''n'', \<lparr>ident = 12, content = Macro_n\<rparr>), (''a'', \<lparr>ident = 13, content = Macro_a\<rparr>),
      (''s'', \<lparr>ident = 14, content = Macro_s\<rparr>), (''h'', \<lparr>ident = 15, content = Macro_h\<rparr>)]"

definition quote_expander :: expander where
  "quote_expander =
     \<lparr>bindings = quote_bindings, filepath = ''m.py'', recursive = True, filename = ''m.py'',
      visit_recursively =
        (\<lambda>t. walked quote_bindings t (expander_visit 12 plain_visitor quote_bindings ''m.py'' t))\<rparr>"

text \<open>What \<open>s\<close> returns for an operand: the marker around the call of \<open>ast.List\<close>.\<close>

definition spliced :: "pyval \<Rightarrow> pyval" where
  "spliced tree =
     ASTLiteral_node
       (Call (VNode (Ast ''Attribute'') [(''value'', mcpy_quotes_attr ''ast''), (''attr'', VStr ''List'')])
          [] [keyword (VStr ''elts'') tree])"

text \<open>A value with a list, a tuple, a node, a set and a dict in it.\<close>

definition sample_value :: pyval where
  "sample_value =
     VList [VInt 1, VStr ''a'', VTuple [VInt 2, VInt 3], name_x, VSet [VInt 1, VInt 2],
            VDict [(VStr ''k'', VNone), (VFloat 0, VBool True)]]"

section \<open>Properties of the tracker\<close>

lemma exec_restores:
  "stack t \<noteq> [] \<Longrightarrow> \<exists>r t'. exec b t = Some (r, t') \<and> stack t' = stack t"
proof (induction b arbitrary: t)
  case Pass
  then show ?case by simp
next
  case (Raise e)
  then show ?case by simp
next
  case (SetTo v b)
  show ?case
  proof (cases "as_int v")
    case None
    then show ?thesis by (simp add: with_set_to_def logged_def log_stack_def)
  next
    case (Some i)
    show ?thesis
    proof (cases "i < 0")
      case True
      with Some show ?thesis by (simp add: with_set_to_def logged_def log_stack_def)
    next
      case False
      let ?t = "log_stack (t\<lparr>stack := stack t @ [i]\<rparr>)"
      have "stack ?t \<noteq> []" by (simp add: log_stack_def)
      from SetTo.IH[OF this] obtain r t' where
        e: "exec b ?t = Some (r, t')" and s: "stack t' = stack ?t" by blast
      from s have s': "stack t' = stack t @ [i]" by (simp add: log_stack_def)
      with Some False e SetTo.prems show ?thesis
        by (simp add: with_set_to_def logged_def log_stack_def Let_def)
    qed
  qed
next
  case (ChangedBy d b)
  from ChangedBy.prems have gv: "get_value t = Inr (last (stack t))"
    by (simp add: get_value_def)
  show ?case
  proof (cases "last (stack t) + d < 0")
    case True
    with gv show ?thesis
      by (simp add: with_changed_by_def with_set_to_def logged_def log_stack_def)
  next
    case False
    let ?i = "last (stack t) + d"
    let ?t = "log_stack (t\<lparr>stack := stack t @ [?i]\<rparr>)"
    have "stack ?t \<noteq> []" by (simp add: log_stack_def)
    from ChangedBy.IH[OF this] obtain r t' where
      e: "exec b ?t = Some (r, t')" and s: "stack t' = stack ?t" by blast
    from s have s': "stack t' = stack t @ [?i]" by (simp add: log_stack_def)
    with gv False e ChangedBy.prems show ?thesis
      by (simp add: with_changed_by_def with_set_to_def logged_def log_stack_def Let_def)
  qed
next
  case (Seq a b)
  from Seq.IH(1)[OF Seq.prems] obtain r t' where
    e: "exec a t = Some (r, t')" and s: "stack t' = stack t" by blast
  with Seq.prems have ne: "stack t' \<noteq> []" by simp
  from Seq.IH(2)[OF ne] obtain r2 t2 where
    e2: "exec b t' = Some (r2, t2)" and s2: "stack t2 = stack t'" by blast
  show ?case
  proof (cases r)
    case (Inl x)
    with e s show ?thesis by simp
  next
    case (Inr y)
    with e e2 s s2 show ?thesis by simp
  qed
next
  case (TryExcept a b)
  from TryExcept.IH(1)[OF TryExcept.prems] obtain r t' where
    e: "exec a t = Some (r, t')" and s: "stack t' = stack t" by blast
  with TryExcept.prems have ne: "stack t' \<noteq> []" by simp
  from TryExcept.IH(2)[OF ne] obtain r2 t2 where
    e2: "exec b t' = Some (r2, t2)" and s2: "stack t2 = stack t'" by blast
  show ?case
  proof (cases r)
    case (Inl x)
    with e e2 s s2 show ?thesis by simp
  next
    case (Inr y)
    with e s show ?thesis by simp
  qed
qed

lemma with_set_to_passes:
  "as_int value = Some v \<Longrightarrow> 0 \<le> v \<Longrightarrow> stack self \<noteq> [] \<Longrightarrow>
   body (self\<lparr>stack := stack self @ [v]\<rparr>) = Some (r, self') \<Longrightarrow>
   stack self' = stack self @ [v] \<Longrightarrow>
   with_set_to value body self = Some (r, self'\<lparr>stack := stack self\<rparr>)"
  by (simp add: with_set_to_def Let_def)

lemma with_set_to_restores:
  assumes "\<And>s r s'. body s = Some (r, s') \<Longrightarrow> stack s' = stack s"
    and "with_set_to value body self = Some (r, self')"
  shows "stack self' = stack self"
  using assms(2)
  by (auto simp: with_set_to_def Let_def dest!: assms(1) split: option.splits if_splits)

lemma with_changed_by_restores:
  assumes "\<And>s r s'. body s = Some (r, s') \<Longrightarrow> stack s' = stack s"
    and "with_changed_by delta body self = Some (r, self')"
  shows "stack self' = stack self"
  using assms(2) with_set_to_restores [of body, OF assms(1)]
  by (auto simp: with_changed_by_def split: sum.splits)

lemma and_then_Some:
  "and_then res f = Some (r, s') \<Longrightarrow>
   (\<exists>e. res = Some (Inl e, s') \<and> r = Inl e) \<or> (\<exists>a s. res = Some (Inr a, s) \<and> f a s = Some (r, s'))"
  by (auto simp: and_then_def split: option.splits sum.splits)

lemma astify_stack:
  "astify ex v st = Some (r, st') \<Longrightarrow> stack st' = stack st"
  "astify_list ex xs st = Some (rs, st') \<Longrightarrow> stack st' = stack st"
  "astify_keys ex kvs st = Some (rs, st') \<Longrightarrow> stack st' = stack st"
  "astify_values ex kvs st = Some (rs, st') \<Longrightarrow> stack st' = stack st"
  "astify_fields ex fs st = Some (rs, st') \<Longrightarrow> stack st' = stack st"
proof (induction ex v st and ex xs st and ex kvs st and ex kvs st and ex fs st
    arbitrary: r st' and rs st' and rs st' and rs st' and rs st'
    rule: astify_astify_list_astify_keys_astify_values_astify_fields.induct)
qed (auto dest!: and_then_Some split: sum.splits option.splits prod.splits)



lemma q_body_stack:
  assumes "\<And>t bs file s res s'. expand_macros ext t bs file s = Some (res, s') \<Longrightarrow> stack s' = stack s"
    and "q_body ext tree syntax ex kw st = Some (r, st')"
  shows "stack st' = stack st"
  using assms(2)
  by (auto simp: q_body_def expand_quasiquotes_def
      dest!: and_then_Some assms(1) astify_stack(1) split: sum.splits option.splits if_splits)

lemma exec_invariant:
  "levels_ok (stack t) \<Longrightarrow>
   \<exists>r t' new. exec b t = Some (r, t') \<and> stack t' = stack t \<and> seen t' = seen t @ new \<and>
           list_all levels_ok new"
proof (induction b arbitrary: t)
  case Pass
  then show ?case by simp
next
  case (Raise e)
  then show ?case by simp
next
  case (SetTo v b)
  show ?case
  proof (cases "as_int v")
    case None
    with SetTo.prems show ?thesis by (simp add: with_set_to_def logged_def log_stack_def)
  next
    case (Some i)
    show ?thesis
    proof (cases "i < 0")
      case True
      with Some SetTo.prems show ?thesis by (simp add: with_set_to_def logged_def log_stack_def)
    next
      case False
      let ?t = "log_stack (t\<lparr>stack := stack t @ [i]\<rparr>)"
      from False SetTo.prems have ok: "levels_ok (stack ?t)"
        by (simp add: log_stack_def levels_ok_def)
      from SetTo.IH[OF ok] obtain r t' new where
        e: "exec b ?t = Some (r, t')" and s: "stack t' = stack ?t"
        and n: "seen t' = seen ?t @ new" and l: "list_all levels_ok new" by blast
      from s have s': "stack t' = stack t @ [i]" by (simp add: log_stack_def)
      from SetTo.prems have ne: "stack t \<noteq> []" by (simp add: levels_ok_def)
      have "exec (SetTo v b) t = Some (r, log_stack (t'\<lparr>stack := stack t\<rparr>))"
        using Some False e s' ne by (simp add: with_set_to_def logged_def Let_def)
      moreover have "seen (log_stack (t'\<lparr>stack := stack t\<rparr>)) = seen t @ ((stack t @ [i]) # new @ [stack t])"
        using n by (simp add: log_stack_def)
      moreover have "list_all levels_ok ((stack t @ [i]) # new @ [stack t])"
        using l ok SetTo.prems by (simp add: log_stack_def)
      ultimately show ?thesis by (simp add: log_stack_def)
    qed
  qed
next
  case (ChangedBy d b)
  from ChangedBy.prems have ne: "stack t \<noteq> []" by (simp add: levels_ok_def)
  then have gv: "get_value t = Inr (last (stack t))" by (simp add: get_value_def)
  show ?case
  proof (cases "last (stack t) + d < 0")
    case True
    with gv ChangedBy.prems show ?thesis
      by (simp add: with_changed_by_def with_set_to_def logged_def log_stack_def)
  next
    case False
    let ?i = "last (stack t) + d"
    let ?t = "log_stack (t\<lparr>stack := stack t @ [?i]\<rparr>)"
    from False ChangedBy.prems have ok: "levels_ok (stack ?t)"
      by (simp add: log_stack_def levels_ok_def)
    from ChangedBy.IH[OF ok] obtain r t' new where
      e: "exec b ?t = Some (r, t')" and s: "stack t' = stack ?t"
      and n: "seen t' = seen ?t @ new" and l: "list_all levels_ok new" by blast
    from s have s': "stack t' = stack t @ [?i]" by (simp add: log_stack_def)
    have "exec (ChangedBy d b) t = Some (r, log_stack (t'\<lparr>stack := stack t\<rparr>))"
      using gv False e s' ne by (simp add: with_changed_by_def with_set_to_def logged_def Let_def)
    moreover have "seen (log_stack (t'\<lparr>stack := stack t\<rparr>)) = seen t @ ((stack t @ [?i]) # new @ [stack t])"
      using n by (simp add: log_stack_def)
    moreover have "list_all levels_ok ((stack t @ [?i]) # new @ [stack t])"
      using l ok ChangedBy.prems by (simp add: log_stack_def)
    ultimately show ?thesis by (simp add: log_stack_def)
  qed
next
  case (Seq a b)
  from Seq.IH(1)[OF Seq.prems] obtain r t' new where
    e: "exec a t = Some (r, t')" and s: "stack t' = stack t"
    and n: "seen t' = seen t @ new" and l: "list_all levels_ok new" by blast
  from s Seq.prems have ok: "levels_ok (stack t')" by simp
  from Seq.IH(2)[OF ok] obtain r2 t2 new2 where
    e2: "exec b t' = Some (r2, t2)" and s2: "stack t2 = stack t'"
    and n2: "seen t2 = seen t' @ new2" and l2: "list_all levels_ok new2" by blast
  show ?case
  proof (cases r)
    case (Inl x)
    with e s n l show ?thesis by simp
  next
    case (Inr y)
    with e e2 s s2 n n2 l l2 show ?thesis by simp
  qed
next
  case (TryExcept a b)
  from TryExcept.IH(1)[OF TryExcept.prems] obtain r t' new where
    e: "exec a t = Some (r, t')" and s: "stack t' = stack t"
    and n: "seen t' = seen t @ new" and l: "list_all levels_ok new" by blast
  from s TryExcept.prems have ok: "levels_ok (stack t')" by simp
  from TryExcept.IH(2)[OF ok] obtain r2 t2 new2 where
    e2: "exec b t' = Some (r2, t2)" and s2: "stack t2 = stack t'"
    and n2: "seen t2 = seen t' @ new2" and l2: "list_all levels_ok new2" by blast
  show ?case
  proof (cases r)
    case (Inl x)
    with e e2 s s2 n n2 l l2 show ?thesis by simp
  next
    case (Inr y)
    with e s n l show ?thesis by simp
  qed
qed


text \<open>
  C10. The nesting level is never negative and never a non-integer. \<open>set_to\<close> raises
  TypeError for a value that is not an int and ValueError for a negative one, and
  \<open>changed_by\<close> raises ValueError when the new level would be negative, each leaving the
  tracker as it was and never running the body. A tracker started at a level
  \<open>0 \<le> start\<close> is in order, and every body of \<open>set_to\<close> and \<open>changed_by\<close> blocks run from
  a tracker in order returns with the tracker in order, every stack it went through
  on the way being in order too.
\<close>

theorem tracker_levels:
  "(as_int value = None \<longrightarrow> with_set_to value body self = Some (Inl TypeError, self)) \<and>
   (\<forall>v. as_int value = Some v \<and> v < 0 \<longrightarrow> with_set_to value body self = Some (Inl ValueError, self)) \<and>
   (\<forall>v. get_value self = Inr v \<and> v + delta < 0 \<longrightarrow>
        with_changed_by delta body self = Some (Inl ValueError, self)) \<and>
   (0 \<le> start \<longrightarrow> levels_ok (stack (init start))) \<and>
   (levels_ok (stack t) \<and> list_all levels_ok (seen t) \<longrightarrow>
      (\<exists>r t'. exec b t = Some (r, t') \<and> levels_ok (stack t') \<and> list_all levels_ok (seen t')))"
proof (intro conjI impI allI)
  show "with_set_to value body self = Some (Inl TypeError, self)" if "as_int value = None"
    using that by (simp add: with_set_to_def)
  show "with_set_to value body self = Some (Inl ValueError, self)"
    if "as_int value = Some v \<and> v < 0" for v
    using that by (simp add: with_set_to_def)
  show "with_changed_by delta body self = Some (Inl ValueError, self)"
    if "get_value self = Inr v \<and> v + delta < 0" for v
    using that by (simp add: with_changed_by_def with_set_to_def)
  show "levels_ok (stack (init start))" if "0 \<le> start"
    using that by (simp add: init_def levels_ok_def)
  show "\<exists>r t'. exec b t = Some (r, t') \<and> levels_ok (stack t') \<and> list_all levels_ok (seen t')"
    if "levels_ok (stack t) \<and> list_all levels_ok (seen t)"
  proof -
    from that exec_invariant [of t b] obtain r t' new where
      "exec b t = Some (r, t')" "stack t' = stack t" "seen t' = seen t @ new"
      "list_all levels_ok new" by blast
    with that show ?thesis by simp
  qed
qed

theorem tracker_levels_witness:
  "with_set_to (VStr ''1'') (\<lambda>t. Some (Inr (), t)) traced0 = Some (Inl TypeError, traced0) \<and>
   with_set_to (VInt (- 1)) (\<lambda>t. Some (Inr (), t)) traced0 = Some (Inl ValueError, traced0) \<and>
   with_changed_by (- 1) (\<lambda>t. Some (Inr (), t)) traced0 = Some (Inl ValueError, traced0) \<and>
   levels_ok (stack (init 0)) \<and>
   levels_ok (stack traced0) \<and> list_all levels_ok (seen traced0) \<and>
   (\<exists>r t'. exec nested_body traced0 = Some (r, t') \<and> levels_ok (stack t') \<and>
            list_all levels_ok (seen t'))"
proof -
  have a: "as_int (VStr ''1'') = None" by simp
  have b: "as_int (VInt (- 1)) = Some (- 1) \<and> (- 1 :: int) < 0" by simp
  have c: "get_value traced0 = Inr 0 \<and> (0 :: int) + (- 1) < 0" by (simp add: get_value_def traced0_def)
  have d: "levels_ok (stack traced0) \<and> list_all levels_ok (seen traced0)"
    by (simp add: traced0_def levels_ok_def)
  from tracker_levels [of "VStr ''1''" "\<lambda>t. Some (Inr (), t)" traced0 "- 1" 0 traced0 nested_body] a
  have 1: "with_set_to (VStr ''1'') (\<lambda>t. Some (Inr (), t)) traced0 = Some (Inl TypeError, traced0)"
    by blast
  from tracker_levels [of "VInt (- 1)" "\<lambda>t. Some (Inr (), t)" traced0 "- 1" 0 traced0 nested_body] b c d
  show ?thesis using 1 by (simp add: init_def levels_ok_def)
qed


text \<open>
  C4. Level restoration. Every body of \<open>set_to\<close> and \<open>changed_by\<close> blocks returns and
  leaves the stack as it found it, also when it raises; a block whose body hands back
  the stack it was given passes on what the body returned or raised and restores the
  stack; and \<open>q\<close> leaves the stack as it found it whenever it returns, in particular
  when the expansion of its body fails (the expansion being any function that keeps
  the stack).
\<close>

theorem level_restored:
  "(stack t \<noteq> [] \<longrightarrow>
      (\<exists>r t'. exec (SetTo value b) t = Some (r, t') \<and> stack t' = stack t) \<and>
      (\<exists>r t'. exec (ChangedBy delta b) t = Some (r, t') \<and> stack t' = stack t)) \<and>
   (stack self \<noteq> [] \<and> as_int value = Some v \<and> 0 \<le> v \<and>
    body (self\<lparr>stack := stack self @ [v]\<rparr>) = Some (r, self') \<and> stack self' = stack self @ [v] \<longrightarrow>
      with_set_to value body self = Some (r, self'\<lparr>stack := stack self\<rparr>)) \<and>
   (stack self \<noteq> [] \<and> 0 \<le> last (stack self) + delta \<and>
    body (self\<lparr>stack := stack self @ [last (stack self) + delta]\<rparr>) = Some (r, self') \<and>
    stack self' = stack self @ [last (stack self) + delta] \<longrightarrow>
      with_changed_by delta body self = Some (r, self'\<lparr>stack := stack self\<rparr>)) \<and>
   ((\<forall>tr bs file s res s'. expand_macros ext tr bs file s = Some (res, s') \<longrightarrow> stack s' = stack s) \<and>
    q_op ext tree syntax ex kw st = Some (res, st') \<longrightarrow> stack st' = stack st) \<and>
   (stack st \<noteq> [] \<and> 0 \<le> last (stack st) \<and> (syntax = ''expr'' \<or> syntax = ''block'') \<and>
    expand_quasiquotes ext tree ex (st\<lparr>stack := stack st @ [last (stack st) + 1]\<rparr>) = Some (Inl e, st1) \<and>
    stack st1 = stack st @ [last (stack st) + 1] \<longrightarrow>
      q_op ext tree syntax ex kw st = Some (Inl e, st1\<lparr>stack := stack st\<rparr>))"
proof (intro conjI impI)
  assume "stack t \<noteq> []"
  then show "\<exists>r t'. exec (SetTo value b) t = Some (r, t') \<and> stack t' = stack t"
    by (rule exec_restores)
next
  assume "stack t \<noteq> []"
  then show "\<exists>r t'. exec (ChangedBy delta b) t = Some (r, t') \<and> stack t' = stack t"
    by (rule exec_restores)
next
  assume "stack self \<noteq> [] \<and> as_int value = Some v \<and> 0 \<le> v \<and>
    body (self\<lparr>stack := stack self @ [v]\<rparr>) = Some (r, self') \<and> stack self' = stack self @ [v]"
  then show "with_set_to value body self = Some (r, self'\<lparr>stack := stack self\<rparr>)"
    by (simp add: with_set_to_passes)
next
  assume "stack self \<noteq> [] \<and> 0 \<le> last (stack self) + delta \<and>
    body (self\<lparr>stack := stack self @ [last (stack self) + delta]\<rparr>) = Some (r, self') \<and>
    stack self' = stack self @ [last (stack self) + delta]"
  then show "with_changed_by delta body self = Some (r, self'\<lparr>stack := stack self\<rparr>)"
    by (simp add: with_changed_by_def get_value_def with_set_to_passes)
next
  assume h: "(\<forall>tr bs file s res s'. expand_macros ext tr bs file s = Some (res, s') \<longrightarrow> stack s' = stack s) \<and>
    q_op ext tree syntax ex kw st = Some (res, st')"
  then have bal: "\<And>s r s'. q_body ext tree syntax ex kw s = Some (r, s') \<Longrightarrow> stack s' = stack s"
    using q_body_stack [of ext tree "syntax" ex kw] by blast
  from h show "stack st' = stack st"
    using with_changed_by_restores [of "q_body ext tree syntax ex kw" 1 st res st', OF bal]
    by (auto simp: q_op_def split: if_splits)
next
  assume h: "stack st \<noteq> [] \<and> 0 \<le> last (stack st) \<and> (syntax = ''expr'' \<or> syntax = ''block'') \<and>
    expand_quasiquotes ext tree ex (st\<lparr>stack := stack st @ [last (stack st) + 1]\<rparr>) = Some (Inl e, st1) \<and>
    stack st1 = stack st @ [last (stack st) + 1]"
  then have "q_body ext tree syntax ex kw (st\<lparr>stack := stack st @ [last (stack st) + 1]\<rparr>) = Some (Inl e, st1)"
    by (simp add: q_body_def and_then_def)
  with h show "q_op ext tree syntax ex kw st = Some (Inl e, st1\<lparr>stack := stack st\<rparr>)"
    by (auto simp: q_op_def with_changed_by_def get_value_def with_set_to_passes)
qed

theorem level_restored_witness:
  "(\<exists>r t'. exec (SetTo (VInt 2) (Raise KeyError)) \<lparr>stack = [0], seen = []\<rparr> = Some (r, t') \<and> stack t' = [0]) \<and>
   (\<exists>r t'. exec (ChangedBy 1 (Raise KeyError)) \<lparr>stack = [0], seen = []\<rparr> = Some (r, t') \<and> stack t' = [0]) \<and>
   with_set_to (VInt 2) (\<lambda>s. Some (Inl KeyError, s)) \<lparr>stack = [0]\<rparr> = Some (Inl KeyError, \<lparr>stack = [0]\<rparr>) \<and>
   with_changed_by 1 (\<lambda>s. Some (Inl KeyError, s)) \<lparr>stack = [0]\<rparr> = Some (Inl KeyError, \<lparr>stack = [0]\<rparr>) \<and>
   q_op plain_externals (VOther 0) ''expr'' plain_expander [] level0 = Some (Inl TypeError, level0) \<and>
   q_op failing_externals name_x ''expr'' plain_expander [] level0 = Some (Inl TypeError, level0)"
proof -
  note th = level_restored [of "\<lparr>stack = [0], seen = []\<rparr>" "VInt 2" "Raise KeyError" 1
      "\<lparr>stack = [0]\<rparr>" 2 "\<lambda>s. Some (Inl KeyError, s)" "Inl KeyError" "\<lparr>stack = [0, 2]\<rparr>"
      failing_externals name_x "''expr''" plain_expander "[]" level0 "Inl TypeError" level0
      TypeError "level0\<lparr>stack := [0, 1]\<rparr>"]
  note th2 = level_restored [of "\<lparr>stack = [0], seen = []\<rparr>" "VInt 2" "Raise KeyError" 1
      "\<lparr>stack = [0]\<rparr>" 2 "\<lambda>s. Some (Inl KeyError, s)" "Inl KeyError" "\<lparr>stack = [0, 1]\<rparr>"
      plain_externals "VOther 0" "''expr''" plain_expander "[]" level0 "Inl TypeError" level0
      TypeError "level0\<lparr>stack := [0, 1]\<rparr>"]
  have q1: "q_op plain_externals (VOther 0) ''expr'' plain_expander [] level0 = Some (Inl TypeError, level0)"
    by (simp add: q_op_def q_body_def with_changed_by_def with_set_to_def get_value_def level0_def
        plain_externals_def plain_expander_def expand_quasiquotes_def and_then_def Let_def)
  from th th2 q1 show ?thesis
    by (simp add: level0_def failing_externals_def plain_externals_def plain_expander_def
        expand_quasiquotes_def del: exec.simps, blast)
qed


section \<open>Properties of the capture registry\<close>



















section \<open>Properties of the expansion visitor\<close>

text \<open>
  C6. Empty-bindings no-op: a visitor pass of \<open>BaseMacroExpander.visit\<close> with an empty
  binding table returns the input tree as it is, whatever the tree and whatever the
  walk of the subclass would do.
\<close>

theorem visit_empty_bindings:
  "bindings self = [] \<Longrightarrow> visit ext self tree = Inr tree"
  by (simp add: visit_def)

theorem visit_empty_bindings_witness:
  "bindings \<lparr>bindings = ([] :: (string \<times> macro_function) list), filepath = ''m.py'',
             recursive = True\<rparr> = []
   \<and> visit \<lparr>super_visit = (\<lambda>self tree. Inr VNone), to_source = (\<lambda>t. ''x''),
             lineno = (\<lambda>t. None), fix_missing_locations = (\<lambda>t. t),
             fix_missing_ctx = (\<lambda>t. t)\<rparr>
        \<lparr>bindings = [], filepath = ''m.py'', recursive = True\<rparr>
        (VNode (Ast ''Name'') [(''id'', VStr ''x'')])
      = Inr (VNode (Ast ''Name'') [(''id'', VStr ''x'')])"
  using visit_empty_bindings [of "\<lparr>bindings = [], filepath = ''m.py'', recursive = True\<rparr>"
      "\<lparr>super_visit = (\<lambda>self tree. Inr VNone), to_source = (\<lambda>t. ''x''),
        lineno = (\<lambda>t. None), fix_missing_locations = (\<lambda>t. t),
        fix_missing_ctx = (\<lambda>t. t)\<rparr>"
      "VNode (Ast ''Name'') [(''id'', VStr ''x'')]"]
  by simp




section \<open>Properties of the quote operators\<close>

lemma below_quote_zero:
  "get_value st = Inr 0 \<Longrightarrow>
   below_quote name st = Some (SyntaxError (name @ ''[] encountered while quotelevel < 1''))"
  by (simp add: below_quote_def)

text \<open>
  C3 (as amended). Level-zero rejection: each of \<open>u\<close>, \<open>n\<close>, \<open>a\<close>, \<open>s\<close> and \<open>h\<close>, called with
  the syntax \<open>expr\<close> while the level is 0, raises a SyntaxError whose message is the
  operator's letter and \<open>[] encountered while quotelevel < 1\<close>, and leaves the module
  state, the level with it, as it was.
\<close>

theorem unquote_at_level_zero:
  "get_value st = Inr 0 \<Longrightarrow>
   u_op ext tree ''expr'' ex kw st =
     Some (Inl (SyntaxError ''u[] encountered while quotelevel < 1''), st) \<and>
   n_op tree ''expr'' kw st =
     Some (Inl (SyntaxError ''n[] encountered while quotelevel < 1''), st) \<and>
   a_op tree ''expr'' kw st =
     Some (Inl (SyntaxError ''a[] encountered while quotelevel < 1''), st) \<and>
   s_op tree ''expr'' kw st =
     Some (Inl (SyntaxError ''s[] encountered while quotelevel < 1''), st) \<and>
   h_op ext tree ''expr'' ex kw st =
     Some (Inl (SyntaxError ''h[] encountered while quotelevel < 1''), st)"
  by (simp add: below_quote_zero u_op_def n_op_def a_op_def s_op_def h_op_def)

theorem unquote_at_level_zero_witness:
  "get_value level0 = Inr 0 \<and>
   u_op plain_externals name_x ''expr'' plain_expander [] level0 =
     Some (Inl (SyntaxError ''u[] encountered while quotelevel < 1''), level0) \<and>
   n_op name_x ''expr'' [] level0 =
     Some (Inl (SyntaxError ''n[] encountered while quotelevel < 1''), level0) \<and>
   a_op name_x ''expr'' [] level0 =
     Some (Inl (SyntaxError ''a[] encountered while quotelevel < 1''), level0) \<and>
   s_op name_x ''expr'' [] level0 =
     Some (Inl (SyntaxError ''s[] encountered while quotelevel < 1''), level0) \<and>
   h_op plain_externals name_x ''expr'' plain_expander [] level0 =
     Some (Inl (SyntaxError ''h[] encountered while quotelevel < 1''), level0)"
proof -
  have l: "get_value level0 = Inr 0" by (simp add: get_value_def level0_def)
  from unquote_at_level_zero [OF l, of plain_externals name_x plain_expander "[]"] l
  show ?thesis by simp
qed

theorem level_zero_message:
  "u_op plain_externals name_x ''expr'' plain_expander [] level0 =
     Some (Inl (SyntaxError ''u[] encountered while quotelevel < 1''), level0) \<and>
   \<not> contains ''u[] encountered while quotelevel < 1'' ''encountered while quoting level < 1''"
  by (simp add: u_op_def below_quote_def get_value_def level0_def startswith_def)

section \<open>Properties of the markers\<close>

text \<open>
  C9. \<open>delete_markers\<close> is to remove every marker, nested ones included. It does not:
  of a marker whose body is a marker it returns the inner marker, where \<open>get_markers\<close>
  still finds it.
\<close>

theorem delete_markers_keeps_nested:
  "delete_markers (VNode (Marker ASTMarker) [(''body'', VNode (Marker ASTMarker) [(''body'', name_x)])])
     ASTMarker
   = Inr (VNode (Marker ASTMarker) [(''body'', name_x)]) \<and>
   get_markers (VNode (Marker ASTMarker) [(''body'', name_x)]) ASTMarker
   = Inr [VNode (Marker ASTMarker) [(''body'', name_x)]]"
  by (simp add: delete_markers_def get_markers_def isinstance_def getattr_def name_x_def Load_def)

section \<open>Properties of unastify\<close>






lemma unastify_Call:
  "unastify F (VNode (Ast ''Call'') fs) =
     (case getattr fs ''func'' of
           Inl e \<Rightarrow> Inl e
         | Inr func \<Rightarrow>
             (case attr_ast_to_dotted_name func of
                Inl e \<Rightarrow> Inl e
              | Inr dotted_name \<Rightarrow>
                  (case lookup_thing F dotted_name of
                     Inl e \<Rightarrow> Inl e
                   | Inr callee \<Rightarrow>
                       (case getattr fs ''args'' of
                          Inl e \<Rightarrow> Inl e
                        | Inr a \<Rightarrow>
                            (case unastify F a of
                               Inl e \<Rightarrow> Inl e
                             | Inr args \<Rightarrow>
                                 (case getattr fs ''keywords'' of
                                    Inl e \<Rightarrow> Inl e
                                  | Inr k \<Rightarrow>
                                      (case unastify F k of
                                         Inl e \<Rightarrow> Inl e
                                       | Inr kws \<Rightarrow>
                                           (case iter_of kws of
                                              Inl e \<Rightarrow> Inl e
                                            | Inr items \<Rightarrow>
                                                (case kwargs_of items [] of
                                                   Inl e \<Rightarrow> Inl e
                                                 | Inr kwargs \<Rightarrow>
                                                     call_node_class callee args kwargs)))))))))"
  by simp




section \<open>Properties of astify and unastify\<close>

lemma dotted_name_of_class:
  "attr_ast_to_dotted_name (Attribute (mcpy_quotes_attr ''ast'') c) = Inr (''mcpy.quotes.ast.'' @ c)"
  by (simp add: attr_ast_to_dotted_name_def Attribute_def mcpy_quotes_attr_def is_class_def
      getattr_def fields_of_node_def Load_def)

lemma split_dots_no_dot: "CHR ''.'' \<notin> set c \<Longrightarrow> split_dots c = [c]"
  by (induction c) auto

lemma lookup_thing_class:
  "CHR ''.'' \<notin> set c \<Longrightarrow> F c = Some names \<Longrightarrow>
   lookup_thing F (''mcpy.quotes.ast.'' @ c) = Inr (c, names)"
  by (simp add: lookup_thing_def startswith_def split_dots_no_dot)

lemma dict_replace_new:
  "list_all (\<lambda>y. \<not> same_key y k) (map fst acc) \<Longrightarrow> dict_replace acc k v = acc @ [(k, v)]"
  by (induction acc k v rule: dict_replace.induct) auto

lemma distinct_keys_append:
  "distinct_keys (acc @ x # xs) \<Longrightarrow>
   list_all (\<lambda>y. \<not> same_key y x) acc \<and> distinct_keys ((acc @ [x]) @ xs)"
  by (induction acc) auto

lemma unastify_list_length: "unastify_list F ts = Inr xs \<Longrightarrow> length xs = length ts"
  by (induction ts arbitrary: xs) (auto split: sum.splits)

lemma unastify_members_of_list:
  "unastify_list F ts = Inr xs \<Longrightarrow> list_all hashable xs \<Longrightarrow> distinct_keys (acc @ xs) \<Longrightarrow>
   unastify_members F ts acc = Inr (acc @ xs)"
proof (induction ts arbitrary: xs acc)
  case Nil
  then show ?case by simp
next
  case (Cons t ts)
  from Cons.prems(1) obtain x xs' where
    x: "unastify F t = Inr x" and xs': "unastify_list F ts = Inr xs'" and eq: "xs = x # xs'"
    by (auto split: sum.splits)
  from Cons.prems(3) eq distinct_keys_append [of acc x xs']
  have n: "list_all (\<lambda>y. \<not> same_key y x) acc" and d: "distinct_keys ((acc @ [x]) @ xs')" by auto
  from Cons.prems(2) eq have h: "hashable x" "list_all hashable xs'" by auto
  from n h have "set_add acc x = Inr (acc @ [x])"
    by (simp add: set_add_def list_all_iff list_ex_iff)
  with x Cons.IH [OF xs' h(2) d] eq show ?case by simp
qed

lemma unastify_items_of_lists:
  "unastify_list F ks = Inr ks' \<Longrightarrow> unastify_list F vs = Inr vs' \<Longrightarrow> length ks = length vs \<Longrightarrow>
   list_all hashable ks' \<Longrightarrow> distinct_keys (map fst acc @ ks') \<Longrightarrow>
   unastify_items F ks vs acc = Inr (acc @ zip ks' vs')"
proof (induction ks arbitrary: vs ks' vs' acc)
  case Nil
  then show ?case by simp
next
  case (Cons k ks)
  from Cons.prems(3) obtain v vs0 where vs: "vs = v # vs0" and len: "length ks = length vs0"
    by (cases vs) auto
  from Cons.prems(1) obtain k' ks0' where
    k: "unastify F k = Inr k'" and ks: "unastify_list F ks = Inr ks0'" and eqk: "ks' = k' # ks0'"
    by (auto split: sum.splits)
  from Cons.prems(2) vs obtain v' vs0' where
    v: "unastify F v = Inr v'" and vs0: "unastify_list F vs0 = Inr vs0'" and eqv: "vs' = v' # vs0'"
    by (auto split: sum.splits)
  from Cons.prems(5) eqk distinct_keys_append [of "map fst acc" k' ks0']
  have n: "list_all (\<lambda>y. \<not> same_key y k') (map fst acc)"
    and d: "distinct_keys (map fst (acc @ [(k', v')]) @ ks0')" by auto
  from Cons.prems(4) eqk have h: "hashable k'" "list_all hashable ks0'" by auto
  from n h have s: "dict_setitem acc k' v' = Inr (acc @ [(k', v')])"
    by (simp add: dict_setitem_def dict_replace_new)
  from Cons.IH [OF ks vs0 len h(2) d] k v s vs eqk eqv show ?case by simp
qed

lemma kwargs_of_fields:
  "distinct (map fst (acc @ fs)) \<Longrightarrow>
   kwargs_of (map (\<lambda>(a, v). VTuple [VStr a, v]) fs) (map (\<lambda>(a, v). (VStr a, v)) acc) =
     Inr (map (\<lambda>(a, v). (VStr a, v)) (acc @ fs))"
proof (induction fs arbitrary: acc)
  case Nil
  then show ?case by simp
next
  case (Cons f fs)
  obtain a v where f: "f = (a, v)" by (cases f)
  from Cons.prems f have "a \<notin> fst ` set acc" by auto
  then have "list_all (\<lambda>y. \<not> same_key y (VStr a)) (map fst (map (\<lambda>(a, v). (VStr a, v)) acc))"
    by (induction acc) auto
  then have s: "dict_setitem (map (\<lambda>(a, v). (VStr a, v)) acc) (VStr a) v =
      Inr (map (\<lambda>(a, v). (VStr a, v)) (acc @ [(a, v)]))"
    by (simp add: dict_setitem_def dict_replace_new)
  from Cons.prems f have "distinct (map fst ((acc @ [(a, v)]) @ fs))" by simp
  from Cons.IH [OF this] s f show ?case by simp
qed

lemma str_keys_fields: "str_keys (map (\<lambda>(a, v). (VStr a, v)) fs) = Inr fs"
  by (induction fs) auto

lemma fields_in_order_Cons:
  assumes "fields_in_order (n # ns) keys"
  shows "(n \<notin> set keys \<and> fields_in_order ns keys) \<or>
         (\<exists>keys'. keys = n # keys' \<and> n \<notin> set keys' \<and> fields_in_order ns keys')"
proof -
  from assms have d0: "distinct (n # ns)"
    and eq: "keys = filter (\<lambda>f. f \<in> set keys) (n # ns)"
    unfolding fields_in_order_def by blast+
  from d0 have dn: "distinct ns" "n \<notin> set ns" by simp_all
  show ?thesis
  proof (cases "n \<in> set keys")
    case False
    then have "filter (\<lambda>f. f \<in> set keys) (n # ns) = filter (\<lambda>f. f \<in> set keys) ns" by simp
    with eq have "keys = filter (\<lambda>f. f \<in> set keys) ns" by (rule trans)
    with dn False show ?thesis unfolding fields_in_order_def by blast
  next
    case True
    define keys' where "keys' = filter (\<lambda>f. f \<in> set keys) ns"
    from True have "filter (\<lambda>f. f \<in> set keys) (n # ns) = n # keys'" by (simp add: keys'_def)
    with eq have k: "keys = n # keys'" by (rule trans)
    from dn have nk: "n \<notin> set keys'" by (simp add: keys'_def)
    have "filter (\<lambda>f. f \<in> set (n # keys')) ns = filter (\<lambda>f. f \<in> set keys') ns"
      using dn by (intro filter_cong) auto
    with keys'_def have "keys' = filter (\<lambda>f. f \<in> set keys') ns" unfolding k by (rule trans)
    with dn have "fields_in_order ns keys'" unfolding fields_in_order_def by blast
    with k nk show ?thesis by blast
  qed
qed

lemma fields_rebuilt:
  "fields_in_order names (map fst fs) \<Longrightarrow>
   concat (map (\<lambda>f. case map_of fs f of None \<Rightarrow> [] | Some v \<Rightarrow> [(f, v)]) names) = fs"
proof (induction names arbitrary: fs)
  case Nil
  then show ?case by (simp add: fields_in_order_def)
next
  case (Cons n ns)
  from fields_in_order_Cons [OF Cons.prems] show ?case
  proof
    assume h: "n \<notin> set (map fst fs) \<and> fields_in_order ns (map fst fs)"
    then have "map_of fs n = None" by (simp add: map_of_eq_None_iff)
    with Cons.IH [of fs] h show ?thesis by simp
  next
    assume "\<exists>keys'. map fst fs = n # keys' \<and> n \<notin> set keys' \<and> fields_in_order ns keys'"
    then obtain keys' where k: "map fst fs = n # keys'" and nk: "n \<notin> set keys'"
      and ok: "fields_in_order ns keys'" by auto
    from k obtain v fs' where fs: "fs = (n, v) # fs'" and tl: "map fst fs' = keys'"
      by (cases fs) auto
    from ok tl have "fields_in_order ns (map fst fs')" by simp
    from Cons.IH [OF this]
    have ih: "concat (map (\<lambda>f. case map_of fs' f of None \<Rightarrow> [] | Some v \<Rightarrow> [(f, v)]) ns) = fs'" .
    from ok tl have sub: "set (map fst fs') \<subseteq> set ns"
      unfolding fields_in_order_def by (metis filter_is_subset)
    have "map_of fs' f = None" if "f \<notin> set ns" for f
      using that sub by (auto simp: map_of_eq_None_iff)
    from Cons.prems have "n \<notin> set ns" by (simp add: fields_in_order_def)
    let ?g = "\<lambda>f. case map_of fs f of None \<Rightarrow> [] | Some v \<Rightarrow> [(f, v)]"
    let ?g' = "\<lambda>f. case map_of fs' f of None \<Rightarrow> [] | Some v \<Rightarrow> [(f, v)]"
    have m: "map ?g ns = map ?g' ns"
      using \<open>n \<notin> set ns\<close> fs by (intro map_cong) auto
    from fs have hd: "?g n = [(n, v)]" by simp
    have "concat (map ?g (n # ns)) = ?g n @ concat (map ?g ns)" by simp
    also have "\<dots> = [(n, v)] @ concat (map ?g' ns)" by (simp only: hd m)
    also have "\<dots> = fs" using ih fs by simp
    finally show ?thesis .
  qed
qed

lemma fields_in_order_distinct: "fields_in_order names keys \<Longrightarrow> distinct keys"
  by (metis distinct_filter fields_in_order_def)

lemma call_node_class_fields:
  "fields_in_order names (map fst fs) \<Longrightarrow>
   call_node_class (c, names) (VList []) (map (\<lambda>(a, v). (VStr a, v)) fs) = Inr (VNode (Ast c) fs)"
  by (simp add: call_node_class_def str_keys_fields fields_rebuilt)


lemma unastify_lifted_node:
  assumes c: "CHR ''.'' \<notin> set c" and F: "F c = Some names"
    and o: "fields_in_order names (map fst fs)"
    and l: "unastify_list F ts = Inr (map (\<lambda>(a, v). VTuple [VStr a, v]) fs)"
  shows "unastify F (Call (Attribute (mcpy_quotes_attr ''ast'') c) [] ts) = Inr (VNode (Ast c) fs)"
proof -
  from o have d: "distinct (map fst ([] @ fs))" by (simp add: fields_in_order_distinct)
  from kwargs_of_fields [OF d]
  have k: "kwargs_of (map (\<lambda>(a, v). VTuple [VStr a, v]) fs) [] = Inr (map (\<lambda>(a, v). (VStr a, v)) fs)"
    by simp
  let ?fs = "[(''func'', Attribute (mcpy_quotes_attr ''ast'') c), (''args'', VList []),
              (''keywords'', VList ts)]"
  have g: "getattr ?fs ''func'' = Inr (Attribute (mcpy_quotes_attr ''ast'') c)"
    "getattr ?fs ''args'' = Inr (VList [])" "getattr ?fs ''keywords'' = Inr (VList ts)"
    by (simp_all add: getattr_def)
  have ua: "unastify F (VList []) = Inr (VList [])" by simp
  have uk: "unastify F (VList ts) = Inr (VList (map (\<lambda>(a, v). VTuple [VStr a, v]) fs))"
    using l by simp
  have it: "iter_of (VList (map (\<lambda>(a, v). VTuple [VStr a, v]) fs)) =
            Inr (map (\<lambda>(a, v). VTuple [VStr a, v]) fs)" by simp
  show ?thesis
    unfolding Call_def
    by (simp only: unastify_Call g sum.case dotted_name_of_class
        lookup_thing_class [of c F names, OF c F] ua uk it k call_node_class_fields [OF o])
qed

lemma round_trip_all:
  "liftable F v \<Longrightarrow> \<exists>t. astify ex v st = Some (Inr t, st) \<and> unastify F t = Inr v"
  "liftable_list F xs \<Longrightarrow>
     \<exists>ts. astify_list ex xs st = Some (Inr ts, st) \<and> unastify_list F ts = Inr xs"
  "liftable_keys F kvs \<Longrightarrow>
     \<exists>ts. astify_keys ex kvs st = Some (Inr ts, st) \<and> unastify_list F ts = Inr (map fst kvs)"
  "liftable_values F kvs \<Longrightarrow>
     \<exists>ts. astify_values ex kvs st = Some (Inr ts, st) \<and> unastify_list F ts = Inr (map snd kvs)"
  "liftable_fields F fs \<Longrightarrow>
     \<exists>ts. astify_fields ex fs st = Some (Inr ts, st) \<and>
          unastify_list F ts = Inr (map (\<lambda>(a, v). VTuple [VStr a, v]) fs)"
proof (induction F v and F xs and F kvs and F kvs and F fs
    arbitrary: st and st and st and st and st
    rule: liftable_liftable_list_liftable_keys_liftable_values_liftable_fields.induct)
  case (1 F xs)
  then obtain ts where "astify_list ex xs st = Some (Inr ts, st)" "unastify_list F ts = Inr xs"
    by fastforce
  then show ?case by (simp add: and_then_def getattr_def)
next
  case (2 F xs)
  then obtain ts where "astify_list ex xs st = Some (Inr ts, st)" "unastify_list F ts = Inr xs"
    by fastforce
  then show ?case by (simp add: and_then_def getattr_def)
next
  case (3 F xs)
  then obtain ts where a: "astify_list ex xs st = Some (Inr ts, st)"
    and u: "unastify_list F ts = Inr xs" by fastforce
  from 3 have "list_all hashable xs" "distinct_keys ([] @ xs)" by simp_all
  from unastify_members_of_list [OF u this] a show ?case
    by (simp add: and_then_def getattr_def)
next
  case (4 F kvs)
  then obtain ks where a: "astify_keys ex kvs st = Some (Inr ks, st)"
    and u: "unastify_list F ks = Inr (map fst kvs)" by fastforce
  from 4 obtain vs where b: "astify_values ex kvs st = Some (Inr vs, st)"
    and w: "unastify_list F vs = Inr (map snd kvs)" by fastforce
  from unastify_list_length [OF u] unastify_list_length [OF w] have len: "length ks = length vs"
    by simp
  from 4 have "list_all hashable (map fst kvs)" "distinct_keys (map fst [] @ map fst kvs)"
    by simp_all
  from unastify_items_of_lists [OF u w len this] a b show ?case
    by (simp add: and_then_def getattr_def zip_map_fst_snd)
next
  case (5 F c fs)
  from 5 obtain names where c: "CHR ''.'' \<notin> set c" and F: "F c = Some names"
    and o: "fields_in_order names (map fst fs)" and lf: "liftable_fields F fs"
    by (auto split: option.splits)
  from 5(1) [OF lf] obtain ts where a: "astify_fields ex fs st = Some (Inr ts, st)"
    and u: "unastify_list F ts = Inr (map (\<lambda>(a, v). VTuple [VStr a, v]) fs)" by blast
  from a unastify_lifted_node [OF c F o u] show ?case by (simp add: and_then_def)
next
  case (10 F x xs)
  then obtain t where t: "astify ex x st = Some (Inr t, st)" "unastify F t = Inr x" by fastforce
  from 10 obtain ts where ts: "astify_list ex xs st = Some (Inr ts, st)" "unastify_list F ts = Inr xs"
    by fastforce
  from t ts show ?case by (simp add: and_then_def)
next
  case (12 F k v kvs)
  then obtain t where t: "astify ex k st = Some (Inr t, st)" "unastify F t = Inr k" by fastforce
  from 12 obtain ts where ts: "astify_keys ex kvs st = Some (Inr ts, st)"
    "unastify_list F ts = Inr (map fst kvs)" by fastforce
  from t ts show ?case by (simp add: and_then_def)
next
  case (14 F k v kvs)
  then obtain t where t: "astify ex v st = Some (Inr t, st)" "unastify F t = Inr v" by fastforce
  from 14 obtain ts where ts: "astify_values ex kvs st = Some (Inr ts, st)"
    "unastify_list F ts = Inr (map snd kvs)" by fastforce
  from t ts show ?case by (simp add: and_then_def)
next
  case (16 F a v fs)
  then obtain t where t: "astify ex v st = Some (Inr t, st)" "unastify F t = Inr v" by fastforce
  from 16 obtain ts where ts: "astify_fields ex fs st = Some (Inr ts, st)"
    "unastify_list F ts = Inr (map (\<lambda>(a, v). VTuple [VStr a, v]) fs)" by fastforce
  from t ts show ?case by (simp add: and_then_def keyword_def getattr_def)
qed (simp_all add: Constant_def getattr_def)

text \<open>
  Claim C1, as the code has it. Every value that holds no marker node round-trips: for an
  atom (\<open>None\<close>, a bool, an int, a float, a str, bytes), a list or a tuple of such
  values, a set or a dict of them, and a node of a class of \<open>ast\<close> whose fields hold
  such values, \<open>astify\<close> returns a tree without changing the module state, and
  \<open>unastify\<close> of that tree returns a value equal to the first in structure: the same
  atoms (a float bit for bit), the same members, the same class and fields. The
  statement is not one of \<open>==\<close>, which is false on a NaN, though the NaN comes back. A
  tree that holds a marker is lifted by \<open>astify\<close> as well, but does not round-trip: an
  \<open>ASTLiteral\<close> is lifted to its body as it is.
\<close>

theorem round_trip:
  "liftable F v \<Longrightarrow> \<exists>t. astify ex v st = Some (Inr t, st) \<and> unastify F t = Inr v"
  by (rule round_trip_all(1))

theorem round_trip_witness:
  "liftable some_fields sample_value \<and>
   (\<exists>t. astify None sample_value level0 = Some (Inr t, level0) \<and>
        unastify some_fields t = Inr sample_value)"
proof -
  have "liftable some_fields sample_value"
    by (simp add: sample_value_def name_x_def Load_def some_fields_def fields_in_order_def
        float_scaled_def float_is_nan_def)
  with round_trip [of some_fields sample_value None level0] show ?thesis by blast
qed

theorem not_round_tripped:
  "astify None (ASTLiteral_node name_x) level0 = Some (Inr name_x, level0) \<and>
   unastify some_fields name_x = Inl TypeError \<and>
   liftable some_fields (VFloat nan) \<and>
   astify None (VFloat nan) level0 = Some (Inr (Constant (VFloat nan)), level0) \<and>
   unastify some_fields (Constant (VFloat nan)) = Inr (VFloat nan) \<and>
   float_is_nan nan \<and> \<not> same_key (VFloat nan) (VFloat nan)"
  by (simp add: ASTLiteral_node_def getattr_def name_x_def Constant_def float_is_nan_def nan_def)

section \<open>Properties of q\<close>

text \<open>
  Claim C2: \<open>q\<close> applied to input whose escapes are all used at a level of 1 or more
  leaves no marker in its output, and its assertion cannot fail. The code falls short
  of it. In \<open>q[s[a[x]]]\<close> the operator \<open>s\<close> wraps its operand, unexpanded, in a marker;
  the expander then visits that expansion at level 1, where \<open>a[x]\<close> passes the level test
  and becomes a marker inside the body of the first; \<open>astify\<close> takes away the outer
  marker only, and the assertion of \<open>q\<close> fails. \<open>q[a[a[x]]]\<close> ends the same way. The
  operator \<open>u\<close> expands its operand at the lowered level, and \<open>q[u[a[x]]]\<close> is refused
  with the SyntaxError of the inner \<open>a\<close>.
\<close>

theorem nested_escape_fails_assertion:
  "s_op (subscript ''a'' name_x) ''expr'' [] level1 =
     Some (Inr (spliced (subscript ''a'' name_x)), level1) \<and>
   a_op name_x ''expr'' [] level1 = Some (Inr (ASTLiteral_node name_x), level1) \<and>
   expand_quasiquotes (expander_externals 12 plain_visitor) (subscript ''s'' (subscript ''a'' name_x))
       quote_expander level1 =
     Some (Inr (spliced (ASTLiteral_node name_x), subscript ''s'' (subscript ''a'' name_x)), level1) \<and>
   q_op (expander_externals 12 plain_visitor) (subscript ''s'' (subscript ''a'' name_x)) ''expr''
       quote_expander [] level0 =
     Some (Inl AssertionError, level0) \<and>
   q_op (expander_externals 12 plain_visitor) (subscript ''a'' (subscript ''a'' name_x)) ''expr''
       quote_expander [] level0 =
     Some (Inl AssertionError, level0) \<and>
   q_op (expander_externals 12 plain_visitor) (subscript ''u'' (subscript ''a'' name_x)) ''expr''
       quote_expander [] level0 =
     Some (Inl (ExpansionError (SyntaxError ''a[] encountered while quotelevel < 1'')), level0)"
  by code_simp

end
